theory Spec2Isabelle
  imports Main
begin

section \<open>Values shared by the repositories\<close>

text \<open>
  The repositories of \<^verbatim>\<open>packages/backend/src/peripherals/database\<close> translate between
  domain records and table rows. Every exception of the TypeScript is a value of
  \<open>error\<close>; a function that can throw returns \<open>error + 'a\<close>.
\<close>

datatype error = TypeError | RangeError | DataAccessError

subsection \<open>JavaScript numbers\<close>

text \<open>
  A JavaScript number is an IEEE double. The repositories tell the integers among them
  from the rest, so a number is an integer that a double holds, a finite double that is
  no integer, an infinity, or \<^verbatim>\<open>NaN\<close>.
\<close>

datatype jsnum = Finite int | NonInteger | PosInfinity | NegInfinity | NaN

function bit_length :: "int \<Rightarrow> nat" where
  "bit_length n = (if n \<le> 0 then 0 else Suc (bit_length (n div 2)))"
  by pat_completeness auto
termination
  by (relation "measure nat") auto

declare bit_length.simps [simp del]

text \<open>
  The double nearest to a magnitude \<open>m \<ge> 0\<close>, as an integer: 53 significant bits, a
  tie goes to the even significand.
\<close>

definition round_to_double :: "int \<Rightarrow> int" where
  "round_to_double m =
     (let e = bit_length m - 53;
          q = m div 2 ^ e;
          r = m mod 2 ^ e;
          q' = (if 2 * r > 2 ^ e \<or> (2 * r = 2 ^ e \<and> odd q) then q + 1 else q)
      in q' * 2 ^ e)"

text \<open>
  \<^verbatim>\<open>Number(x)\<close> of a \<^verbatim>\<open>bigint\<close>, and the number of any integer: the double nearest to
  \<open>x\<close>; a magnitude that rounds to \<open>2^1024\<close> or above is an infinity.
\<close>

definition Number :: "int \<Rightarrow> jsnum" where
  "Number x =
     (let v = round_to_double \<bar>x\<bar>
      in if v \<ge> 2 ^ 1024 then (if x < 0 then NegInfinity else PosInfinity)
         else Finite (if x < 0 then - v else v))"

definition negate :: "jsnum \<Rightarrow> jsnum" where
  "negate x = (case x of Finite i \<Rightarrow> Finite (- i) | NonInteger \<Rightarrow> NonInteger
                 | PosInfinity \<Rightarrow> NegInfinity | NegInfinity \<Rightarrow> PosInfinity | NaN \<Rightarrow> NaN)"

text \<open>
  The double nearest to the fraction \<open>n / d\<close> with \<open>n \<ge> 0\<close> and \<open>d > 0\<close>: \<open>l\<close> is the
  binary exponent of the fraction, \<open>u\<close> the exponent of the last of its 53 bits, not
  below that of the smallest subnormal; the fraction is rounded to a multiple of
  \<open>2^u\<close>.
\<close>

definition round_rational :: "int \<Rightarrow> int \<Rightarrow> jsnum" where
  "round_rational n d =
     (if n = 0 then Finite 0
      else
        let a = int (bit_length n); b = int (bit_length d);
            l = (if (if b \<le> a then d * 2 ^ nat (a - b) \<le> n else d \<le> n * 2 ^ nat (b - a))
                 then a - b else a - b - 1);
            u = max (l - 52) (- 1074);
            x = (if u < 0 then n * 2 ^ nat (- u) else n);
            y = (if u < 0 then d else d * 2 ^ nat u);
            q = x div y;
            r = x mod y;
            q' = (if 2 * r > y \<or> (2 * r = y \<and> odd q) then q + 1 else q)
        in if 0 \<le> u then (if q' * 2 ^ nat u \<ge> 2 ^ 1024 then PosInfinity else Finite (q' * 2 ^ nat u))
           else if q' mod 2 ^ nat (- u) = 0 then Finite (q' div 2 ^ nat (- u))
           else NonInteger)"

text \<open>\<^verbatim>\<open>BigInt(n)\<close> of a number throws a RangeError unless \<open>n\<close> is an integer.\<close>

definition BigInt :: "jsnum \<Rightarrow> error + int" where
  "BigInt n = (case n of Finite i \<Rightarrow> Inr i | _ \<Rightarrow> Inl RangeError)"

subsection \<open>Texts read as numbers\<close>

text \<open>
  A text is a list of bytes; the white space of JavaScript is taken within ASCII (tab,
  line feed, vertical tab, form feed, carriage return, space). A digit has the value 0
  to 9, a letter of either case 10 to 35.
\<close>

definition is_space :: "char \<Rightarrow> bool" where
  "is_space c = ((of_char c :: nat) \<in> {9, 10, 11, 12, 13, 32})"

definition trim :: "string \<Rightarrow> string" where
  "trim s = rev (dropWhile is_space (rev (dropWhile is_space s)))"

definition digit_value :: "char \<Rightarrow> nat option" where
  "digit_value c =
     (let v = (of_char c :: nat)
      in if 48 \<le> v \<and> v \<le> 57 then Some (v - 48)
         else if 97 \<le> v \<and> v \<le> 122 then Some (v - 87)
         else if 65 \<le> v \<and> v \<le> 90 then Some (v - 55)
         else None)"

definition is_digit :: "nat \<Rightarrow> char \<Rightarrow> bool" where
  "is_digit radix c = (case digit_value c of None \<Rightarrow> False | Some d \<Rightarrow> d < radix)"

definition digits_value :: "nat \<Rightarrow> string \<Rightarrow> int" where
  "digits_value radix s =
     foldl (\<lambda>acc c. acc * int radix + (case digit_value c of None \<Rightarrow> 0 | Some d \<Rightarrow> int d)) 0 s"

text \<open>
  The unary plus of a text, \<^verbatim>\<open>+text\<close>: white space around the literal is dropped, the
  empty text is 0, a literal with the prefix \<^verbatim>\<open>0x\<close>, \<^verbatim>\<open>0o\<close> or \<^verbatim>\<open>0b\<close> is an unsigned
  integer in that radix, and anything else is a decimal literal with an optional sign:
  \<^verbatim>\<open>Infinity\<close>, or digits with an optional fraction and an optional exponent. The value
  is the nearest double; a text that is no such literal is \<^verbatim>\<open>NaN\<close>.
\<close>

definition scale :: "int \<Rightarrow> int \<Rightarrow> jsnum" where
  "scale m p = (if 0 \<le> p then Number (m * 10 ^ nat p) else round_rational m (10 ^ nat (- p)))"

text \<open>The exponent part of a decimal literal; \<open>None\<close> when the rest is no exponent part.\<close>

definition exponent_part :: "string \<Rightarrow> int option" where
  "exponent_part r =
     (case r of
        [] \<Rightarrow> Some 0
      | c # r' \<Rightarrow>
          if c = CHR ''e'' \<or> c = CHR ''E'' then
            (let negative = (r' \<noteq> [] \<and> hd r' = CHR ''-'');
                 signed = (r' \<noteq> [] \<and> (hd r' = CHR ''-'' \<or> hd r' = CHR ''+''));
                 ds = (if signed then tl r' else r')
             in if ds \<noteq> [] \<and> list_all (is_digit 10) ds
                then Some (if negative then - digits_value 10 ds else digits_value 10 ds)
                else None)
          else None)"

definition decimal_literal :: "string \<Rightarrow> jsnum" where
  "decimal_literal u =
     (if u = ''Infinity'' then PosInfinity
      else
        let ip = takeWhile (is_digit 10) u;
            r1 = dropWhile (is_digit 10) u;
            dot = (r1 \<noteq> [] \<and> hd r1 = CHR ''.'');
            fp = (if dot then takeWhile (is_digit 10) (tl r1) else []);
            r2 = (if dot then dropWhile (is_digit 10) (tl r1) else r1)
        in if ip = [] \<and> fp = [] then NaN
           else case exponent_part r2 of
                  None \<Rightarrow> NaN
                | Some e \<Rightarrow> scale (digits_value 10 (ip @ fp)) (e - int (length fp)))"

definition prefix_radix :: "char \<Rightarrow> nat option" where
  "prefix_radix c =
     (if c = CHR ''x'' \<or> c = CHR ''X'' then Some 16
      else if c = CHR ''o'' \<or> c = CHR ''O'' then Some 8
      else if c = CHR ''b'' \<or> c = CHR ''B'' then Some 2
      else None)"

definition unary_plus :: "string \<Rightarrow> jsnum" where
  "unary_plus s =
     (case trim s of
        [] \<Rightarrow> Finite 0
      | c # cs \<Rightarrow>
          (case (if c = CHR ''0'' \<and> cs \<noteq> [] then prefix_radix (hd cs) else None) of
             Some radix \<Rightarrow>
               if tl cs \<noteq> [] \<and> list_all (is_digit radix) (tl cs)
               then Number (digits_value radix (tl cs)) else NaN
           | None \<Rightarrow>
               if c = CHR ''-'' then negate (decimal_literal cs)
               else if c = CHR ''+'' then decimal_literal cs
               else decimal_literal (c # cs)))"

text \<open>
  \<^verbatim>\<open>parseInt(text)\<close> with no radix: leading white space is dropped, then come an
  optional sign, an optional prefix \<^verbatim>\<open>0x\<close> that makes the radix 16, and the longest run
  of digits of the radix; what follows is ignored. The value is the nearest double,
  \<^verbatim>\<open>NaN\<close> when there is no digit. \<open>None\<close> is \<^verbatim>\<open>null\<close>, whose text has no digit.
\<close>

definition parseInt :: "string option \<Rightarrow> jsnum" where
  "parseInt x =
     (case x of
        None \<Rightarrow> NaN
      | Some s \<Rightarrow>
          (let t = dropWhile is_space s;
               negative = (t \<noteq> [] \<and> hd t = CHR ''-'');
               t1 = (if t \<noteq> [] \<and> (hd t = CHR ''-'' \<or> hd t = CHR ''+'') then tl t else t);
               hex = (case t1 of c # d # _ \<Rightarrow> c = CHR ''0'' \<and> (d = CHR ''x'' \<or> d = CHR ''X'')
                      | _ \<Rightarrow> False);
               radix = (if hex then 16 else 10);
               z = takeWhile (is_digit radix) (if hex then drop 2 t1 else t1)
           in if z = [] then NaN
              else Number (if negative then - digits_value radix z else digits_value radix z)))"

text \<open>The unary plus of a number is the number.\<close>

definition unary_plus_number :: "'n \<Rightarrow> 'n" where
  "unary_plus_number x = x"

subsection \<open>UnixTime\<close>

text \<open>
  Modelled from the spec: \<^verbatim>\<open>UnixTime\<close> of \<^verbatim>\<open>@l2beat/common\<close> is not among the sources.
  The spec has a timestamp be an instant in integer seconds, stored as a text-encoded
  integer and reconstructed on read, a non-numeric stored timestamp being an error. An
  instant is an \<open>int\<close>; \<open>UnixTime_toString\<close> is its decimal text; the constructor
  \<open>UnixTime_new\<close> takes a number and rejects what is no integer.
\<close>

type_synonym UnixTime = int

definition digit_char :: "nat \<Rightarrow> char" where
  "digit_char d = char_of (48 + d)"

fun dec_nat :: "nat \<Rightarrow> string" where
  "dec_nat n = (if n < 10 then [digit_char n] else dec_nat (n div 10) @ [digit_char (n mod 10)])"

declare dec_nat.simps [simp del]

definition UnixTime_toString :: "UnixTime \<Rightarrow> string" where
  "UnixTime_toString t = (if t < 0 then CHR ''-'' # dec_nat (nat (- t)) else dec_nat (nat t))"

definition UnixTime_new :: "jsnum \<Rightarrow> error + UnixTime" where
  "UnixTime_new n = (case n of Finite t \<Rightarrow> Inr t | _ \<Rightarrow> Inl TypeError)"

subsection \<open>The store's columns\<close>

text \<open>
  Modelled from the spec: the schemas are not among the sources and the store is an
  external collaborator. The spec has a \<^verbatim>\<open>unix_timestamp\<close> column hold an integer that
  travels as text, the \<^verbatim>\<open>block_number\<close> column be an integer column, and a value that
  the store cannot take surface as a data-access error. \<open>read_integer\<close> is the integer
  the store reads from a text, an optional minus sign and decimal digits;
  \<open>integer_column\<close> is the integer a number is in an integer column, which holds
  \<open>-2^31\<close> to \<open>2^31 - 1\<close>. \<open>None\<close> is the store rejecting the value.
\<close>

definition read_integer :: "string \<Rightarrow> int option" where
  "read_integer s =
     (let negative = (s \<noteq> [] \<and> hd s = CHR ''-'');
          ds = (if negative then tl s else s)
      in if ds \<noteq> [] \<and> list_all (is_digit 10) ds
         then Some (if negative then - digits_value 10 ds else digits_value 10 ds)
         else None)"

definition integer_column :: "jsnum \<Rightarrow> int option" where
  "integer_column n =
     (case n of
        Finite i \<Rightarrow> if - (2 ^ 31) \<le> i \<and> i < 2 ^ 31 then Some i else None
      | _ \<Rightarrow> None)"

section \<open>BlockNumberRepository\<close>

text \<open>
  \<^verbatim>\<open>BlockNumberRepository.ts\<close>. The fields of the three record types share names in the
  source (\<^verbatim>\<open>timestamp\<close>, \<^verbatim>\<open>blockNumber\<close>, \<^verbatim>\<open>assetId\<close>); here each carries a prefix
  for its record. The module's \<^verbatim>\<open>toRow\<close> and \<^verbatim>\<open>toRecord\<close> are \<open>BlockNumber_toRow\<close> and
  \<open>BlockNumber_toRecord\<close>.
\<close>

record BlockNumberRecord =
  bn_timestamp :: UnixTime
  bn_blockNumber :: int

record BlockNumberRow =
  bn_unix_timestamp :: string
  bn_block_number :: jsnum

definition BlockNumber_toRow :: "BlockNumberRecord \<Rightarrow> BlockNumberRow" where
  "BlockNumber_toRow record =
     \<lparr> bn_unix_timestamp = UnixTime_toString (bn_timestamp record),
       bn_block_number = Number (bn_blockNumber record) \<rparr>"

definition BlockNumber_toRecord :: "BlockNumberRow \<Rightarrow> error + BlockNumberRecord" where
  "BlockNumber_toRecord row =
     (case UnixTime_new (unary_plus (bn_unix_timestamp row)) of
        Inl e \<Rightarrow> Inl e
      | Inr t \<Rightarrow>
          (case BigInt (bn_block_number row) of
             Inl e \<Rightarrow> Inl e
           | Inr b \<Rightarrow> Inr \<lparr> bn_timestamp = t, bn_blockNumber = b \<rparr>))"

text \<open>
  Modelled from the spec: the schema of \<^verbatim>\<open>block_numbers\<close> is not among the sources. The
  spec has the table generate a row identifier on insert and enforce no uniqueness. The
  table is the list of its rows in insertion order, each with its generated identifier
  and its two columns as the integers they are, and the next identifier to hand out.
\<close>

record block_number_row =
  bnr_id :: nat
  bnr_unix_timestamp :: int
  bnr_block_number :: int

record block_numbers =
  bn_rows :: "block_number_row list"
  bn_next_id :: nat

text \<open>
  \<^verbatim>\<open>knex('block_numbers').insert(row).returning('block_number')\<close>: the store reads the
  two values of the row into its columns and rejects the statement when it cannot;
  otherwise the statement inserts the row and yields the \<^verbatim>\<open>block_number\<close> column of
  every row it inserted.
\<close>

definition insert_returning_block_number ::
  "BlockNumberRow \<Rightarrow> block_numbers \<Rightarrow> error + (jsnum list \<times> block_numbers)" where
  "insert_returning_block_number row t =
     (case read_integer (bn_unix_timestamp row) of
        None \<Rightarrow> Inl DataAccessError
      | Some ts \<Rightarrow>
          (case integer_column (bn_block_number row) of
             None \<Rightarrow> Inl DataAccessError
           | Some b \<Rightarrow>
               Inr ([Finite b],
                    \<lparr> bn_rows = bn_rows t @
                        [\<lparr> bnr_id = bn_next_id t, bnr_unix_timestamp = ts, bnr_block_number = b \<rparr>],
                      bn_next_id = Suc (bn_next_id t) \<rparr>)))"

text \<open>
  \<^verbatim>\<open>const [id] = ...; return id\<close>: the first element of the returned array, \<open>None\<close>
  (\<^verbatim>\<open>undefined\<close>) when it is empty. An error of the store is the error of \<^verbatim>\<open>add\<close>, and
  the table stays as it was.
\<close>

definition add ::
  "BlockNumberRecord \<Rightarrow> block_numbers \<Rightarrow> (error + jsnum option) \<times> block_numbers" where
  "add record t =
     (let row = BlockNumber_toRow record
      in case insert_returning_block_number row t of
           Inl e \<Rightarrow> (Inl e, t)
         | Inr (returned, t') \<Rightarrow>
             (Inr (case returned of [] \<Rightarrow> None | ident # _ \<Rightarrow> Some ident), t'))"

text \<open>
  \<^verbatim>\<open>rows.map(f)\<close> with an \<open>f\<close> that can throw: the exception of the first row that
  throws is the result.
\<close>

fun try_map :: "('a \<Rightarrow> error + 'b) \<Rightarrow> 'a list \<Rightarrow> error + 'b list" where
  "try_map f [] = Inr []"
| "try_map f (x # xs) =
     (case f x of
        Inl e \<Rightarrow> Inl e
      | Inr y \<Rightarrow> (case try_map f xs of Inl e \<Rightarrow> Inl e | Inr ys \<Rightarrow> Inr (y # ys)))"

text \<open>\<^verbatim>\<open>knex('block_numbers').select('unix_timestamp', 'block_number')\<close>.\<close>

definition select_block_numbers :: "block_numbers \<Rightarrow> BlockNumberRow list" where
  "select_block_numbers t =
     map (\<lambda>r. \<lparr> bn_unix_timestamp = UnixTime_toString (bnr_unix_timestamp r),
                bn_block_number = Finite (bnr_block_number r) \<rparr>) (bn_rows t)"

definition BlockNumber_getAll :: "block_numbers \<Rightarrow> error + BlockNumberRecord list" where
  "BlockNumber_getAll t = try_map BlockNumber_toRecord (select_block_numbers t)"

definition BlockNumber_deleteAll :: "block_numbers \<Rightarrow> nat \<times> block_numbers" where
  "BlockNumber_deleteAll t = (length (bn_rows t), t\<lparr> bn_rows := [] \<rparr>)"

section \<open>PriceRepository\<close>

text \<open>
  \<^verbatim>\<open>PriceRepository.ts\<close>. The repository only passes \<^verbatim>\<open>priceUsd\<close> on, so the type of
  that JavaScript number is a parameter \<open>'n\<close>. The module's \<^verbatim>\<open>toRow\<close>, \<^verbatim>\<open>toRecord\<close>,
  \<^verbatim>\<open>getAll\<close> and \<^verbatim>\<open>deleteAll\<close> carry the prefix \<open>Price_\<close>. The calls of the logger
  change no result and are left out.

  Modelled from the spec: \<^verbatim>\<open>AssetId\<close> of \<^verbatim>\<open>@l2beat/common\<close> is not among the sources.
  The spec has an asset identifier be a stable string key, stored in its canonical
  string form: \<^verbatim>\<open>AssetId(text)\<close> is the text and \<^verbatim>\<open>assetId.toString()\<close> gives it back.
\<close>

type_synonym AssetId = string

definition AssetId :: "string \<Rightarrow> AssetId" where
  "AssetId s = s"

record 'n PriceRecord =
  pr_assetId :: AssetId
  pr_priceUsd :: 'n
  pr_timestamp :: UnixTime

record DataBoundary =
  earliest :: UnixTime
  latest :: UnixTime

record 'n PriceRow =
  pr_asset_id :: string
  pr_price_usd :: 'n
  pr_unix_timestamp :: string

definition Price_toRecord :: "'n PriceRow \<Rightarrow> error + 'n PriceRecord" where
  "Price_toRecord row =
     (case UnixTime_new (unary_plus (pr_unix_timestamp row)) of
        Inl e \<Rightarrow> Inl e
      | Inr t \<Rightarrow>
          Inr \<lparr> pr_assetId = AssetId (pr_asset_id row),
                pr_priceUsd = unary_plus_number (pr_price_usd row),
                pr_timestamp = t \<rparr>)"

text \<open>
  \<^verbatim>\<open>record.timestamp.toNumber().toString()\<close> is the decimal text of the seconds, the text
  of \<open>UnixTime_toString\<close>.
\<close>

definition Price_toRow :: "'n PriceRecord \<Rightarrow> 'n PriceRow" where
  "Price_toRow record =
     \<lparr> pr_asset_id = pr_assetId record, pr_price_usd = pr_priceUsd record,
       pr_unix_timestamp = UnixTime_toString (pr_timestamp record) \<rparr>"

subsection \<open>The table behind the queries\<close>

text \<open>
  Modelled from the spec: the schema of \<^verbatim>\<open>coingecko_prices\<close> is not among the sources,
  and the store is an external collaborator. The spec has the column
  \<^verbatim>\<open>unix_timestamp\<close> hold an integer that travels as text, and the aggregate query
  compute the minimum and the maximum timestamp of each asset. The table is the list of
  its rows with the timestamp as the integer it is; \<open>wire\<close> is the row as the driver
  hands it to the repository, the integer in decimal text.
\<close>

record 'n coingecko_price =
  cp_asset_id :: string
  cp_price_usd :: 'n
  cp_unix_timestamp :: int

type_synonym 'n coingecko_prices = "'n coingecko_price list"

definition wire :: "'n coingecko_price \<Rightarrow> 'n PriceRow" where
  "wire r =
     \<lparr> pr_asset_id = cp_asset_id r, pr_price_usd = cp_price_usd r,
       pr_unix_timestamp = UnixTime_toString (cp_unix_timestamp r) \<rparr>"

text \<open>\<^verbatim>\<open>knex('coingecko_prices')\<close> and \<^verbatim>\<open>knex('coingecko_prices').where({column: text})\<close>.\<close>

definition select_all :: "'n coingecko_prices \<Rightarrow> 'n PriceRow list" where
  "select_all t = map wire t"

definition where_unix_timestamp :: "string \<Rightarrow> 'n coingecko_prices \<Rightarrow> 'n PriceRow list" where
  "where_unix_timestamp text t = filter (\<lambda>row. pr_unix_timestamp row = text) (select_all t)"

definition where_asset_id :: "string \<Rightarrow> 'n coingecko_prices \<Rightarrow> 'n PriceRow list" where
  "where_asset_id text t = filter (\<lambda>row. pr_asset_id row = text) (select_all t)"

text \<open>
  The insert of a list of rows: the store reads each timestamp text as an integer and
  rejects the statement when one is not an integer. \<open>stored\<close> is the row the table
  then holds for a record.
\<close>

definition unwire :: "'n PriceRow \<Rightarrow> error + 'n coingecko_price" where
  "unwire row =
     (case read_integer (pr_unix_timestamp row) of
        None \<Rightarrow> Inl DataAccessError
      | Some t \<Rightarrow>
          Inr \<lparr> cp_asset_id = pr_asset_id row, cp_price_usd = pr_price_usd row,
                cp_unix_timestamp = t \<rparr>)"

definition stored :: "'n PriceRecord \<Rightarrow> 'n coingecko_price" where
  "stored record =
     \<lparr> cp_asset_id = pr_assetId record, cp_price_usd = pr_priceUsd record,
       cp_unix_timestamp = pr_timestamp record \<rparr>"

definition insert_rows :: "'n PriceRow list \<Rightarrow> 'n coingecko_prices \<Rightarrow> error + 'n coingecko_prices" where
  "insert_rows rows t = (case try_map unwire rows of Inl e \<Rightarrow> Inl e | Inr rs \<Rightarrow> Inr (t @ rs))"

text \<open>
  \<^verbatim>\<open>.min('unix_timestamp').max('unix_timestamp').select('asset_id').groupBy('asset_id')\<close>:
  one row for each asset of the table (the order of the groups is the store's; here an
  asset stands where its last row stands), with the aggregates as text. An aggregate
  over no row is \<^verbatim>\<open>NULL\<close>, here \<open>None\<close>.
\<close>

record min_max_row =
  mm_asset_id :: string
  mm_min :: "string option"
  mm_max :: "string option"

fun aggregate :: "(int \<Rightarrow> int \<Rightarrow> int) \<Rightarrow> int list \<Rightarrow> int option" where
  "aggregate f [] = None"
| "aggregate f (x # xs) = Some (fold f xs x)"

definition min_max_group_by_asset_id :: "'n coingecko_prices \<Rightarrow> min_max_row list" where
  "min_max_group_by_asset_id t =
     map (\<lambda>a. let ts = map cp_unix_timestamp (filter (\<lambda>r. cp_asset_id r = a) t)
              in \<lparr> mm_asset_id = a,
                   mm_min = map_option UnixTime_toString (aggregate min ts),
                   mm_max = map_option UnixTime_toString (aggregate max ts) \<rparr>)
         (remdups (map cp_asset_id t))"

subsection \<open>The repository's methods\<close>

definition Price_getAll :: "'n coingecko_prices \<Rightarrow> error + 'n PriceRecord list" where
  "Price_getAll t = try_map Price_toRecord (select_all t)"

definition getByTimestamp :: "UnixTime \<Rightarrow> 'n coingecko_prices \<Rightarrow> error + 'n PriceRecord list" where
  "getByTimestamp timestamp t =
     try_map Price_toRecord (where_unix_timestamp (UnixTime_toString timestamp) t)"

definition getByToken :: "AssetId \<Rightarrow> 'n coingecko_prices \<Rightarrow> error + 'n PriceRecord list" where
  "getByToken assetId t = try_map Price_toRecord (where_asset_id assetId t)"

definition Price_deleteAll :: "'n coingecko_prices \<Rightarrow> 'n coingecko_prices" where
  "Price_deleteAll t = []"

text \<open>
  \<^verbatim>\<open>knex.batchInsert(table, rows, chunkSize)\<close> is the query builder's, not the
  repository's, and not among the sources. Called as here, outside a transaction, it
  cuts the rows into chunks of at most \<open>chunkSize\<close> rows, opens a transaction of its own
  and inserts the chunks in it one after the other; when the insert of a chunk fails, no
  later chunk is inserted, the transaction is rolled back and the error is thrown.
  The insert of one chunk is the store's and may fail for the store's own reasons, so it
  is the parameter \<open>ins\<close>; the store's state is any type \<open>'s\<close>. \<open>insert_batches\<close> is
  the run of the inserts inside the transaction; \<open>batchInsert\<close> commits its state or
  leaves the state from before the call.
\<close>

function chunk :: "nat \<Rightarrow> 'a list \<Rightarrow> 'a list list" where
  "chunk n xs = (if n = 0 \<or> xs = [] then [] else take n xs # chunk n (drop n xs))"
  by pat_completeness auto
termination
  by (relation "measure (\<lambda>(n, xs). length xs)") auto

declare chunk.simps [simp del]

fun insert_batches :: "('r list \<Rightarrow> 's \<Rightarrow> error + 's) \<Rightarrow> 'r list list \<Rightarrow> 's \<Rightarrow> error + 's" where
  "insert_batches ins [] t = Inr t"
| "insert_batches ins (b # bs) t =
     (case ins b t of Inl e \<Rightarrow> Inl e | Inr t' \<Rightarrow> insert_batches ins bs t')"

definition batchInsert ::
  "('r list \<Rightarrow> 's \<Rightarrow> error + 's) \<Rightarrow> 'r list \<Rightarrow> nat \<Rightarrow> 's \<Rightarrow> 's \<times> (error + unit)" where
  "batchInsert ins rows chunkSize t =
     (case insert_batches ins (chunk chunkSize rows) t of
        Inl e \<Rightarrow> (t, Inl e)
      | Inr t' \<Rightarrow> (t', Inr ()))"

definition addMany ::
  "('n PriceRow list \<Rightarrow> 's \<Rightarrow> error + 's) \<Rightarrow> 'n PriceRecord list \<Rightarrow> 's \<Rightarrow> 's \<times> (error + nat)" where
  "addMany ins prices t =
     (let rows = map Price_toRow prices
      in case batchInsert ins rows 10000 t of
           (t', Inl e) \<Rightarrow> (t', Inl e)
         | (t', Inr _) \<Rightarrow> (t', Inr (length rows)))"

text \<open>\<^verbatim>\<open>new Map(entries)\<close>: a later entry replaces an earlier one with the same key.\<close>

definition Map_new :: "('k \<times> 'v) list \<Rightarrow> ('k \<rightharpoonup> 'v)" where
  "Map_new entries = fold (\<lambda>(k, v) m. m(k \<mapsto> v)) entries Map.empty"

definition boundary_entry :: "min_max_row \<Rightarrow> error + (AssetId \<times> DataBoundary)" where
  "boundary_entry row =
     (case UnixTime_new (parseInt (mm_min row)) of
        Inl e \<Rightarrow> Inl e
      | Inr lo \<Rightarrow>
          (case UnixTime_new (parseInt (mm_max row)) of
             Inl e \<Rightarrow> Inl e
           | Inr hi \<Rightarrow> Inr (AssetId (mm_asset_id row), \<lparr> earliest = lo, latest = hi \<rparr>)))"

definition calcDataBoundaries :: "'n coingecko_prices \<Rightarrow> error + (AssetId \<rightharpoonup> DataBoundary)" where
  "calcDataBoundaries t =
     (case try_map boundary_entry (min_max_group_by_asset_id t) of
        Inl e \<Rightarrow> Inl e
      | Inr entries \<Rightarrow> Inr (Map_new entries))"

text \<open>
  A store for the examples: it holds at most 10000 rows and rejects the batch that
  would exceed that.
\<close>

definition capped_insert :: "'r list \<Rightarrow> 'r list \<Rightarrow> error + 'r list" where
  "capped_insert b t = (if length t + length b \<le> 10000 then Inr (t @ b) else Inl DataAccessError)"

section \<open>BalanceRepository\<close>

text \<open>
  Modelled from the spec: \<^verbatim>\<open>BalanceRepository.ts\<close> is not among the sources, only its
  test \<^verbatim>\<open>BalanceRepository.test.ts\<close> is. The spec has a balance record be a block number,
  a holder address, an asset identifier and an arbitrary-precision balance, with the
  triple (block number, holder address, asset) as the key of the table. The table is the
  list of its rows in insertion order. The module's \<^verbatim>\<open>getAll\<close> and \<^verbatim>\<open>deleteAll\<close> carry
  the prefix \<open>Balance_\<close>.
\<close>

type_synonym EthereumAddress = string

record BalanceRecord =
  bal_blockNumber :: int
  bal_holderAddress :: EthereumAddress
  bal_assetId :: AssetId
  bal_balance :: int

type_synonym balances = "BalanceRecord list"

definition key :: "'a BalanceRecord_scheme \<Rightarrow> int \<times> EthereumAddress \<times> AssetId" where
  "key r = (bal_blockNumber r, bal_holderAddress r, bal_assetId r)"

text \<open>
  Modelled from the spec: for each record, if a row with the same key already exists,
  its balance is overwritten; otherwise a new row is inserted.
\<close>

definition upsert :: "BalanceRecord \<Rightarrow> balances \<Rightarrow> balances" where
  "upsert r t =
     (if key r \<in> key ` set t
      then map (\<lambda>x. if key x = key r then x\<lparr> bal_balance := bal_balance r \<rparr> else x) t
      else t @ [r])"

text \<open>
  Modelled from the spec: \<^verbatim>\<open>addOrUpdateMany(records)\<close> does this for each record of the
  batch, as one bulk operation; with no record it does nothing.
\<close>

definition addOrUpdateMany :: "BalanceRecord list \<Rightarrow> balances \<Rightarrow> balances" where
  "addOrUpdateMany records t = fold upsert records t"

text \<open>
  Modelled from the spec: \<^verbatim>\<open>getByBlock(blockNumber)\<close> is an equality filter on the block
  number; an unknown block gives the empty sequence.
\<close>

definition getByBlock :: "int \<Rightarrow> balances \<Rightarrow> BalanceRecord list" where
  "getByBlock blockNumber t = filter (\<lambda>r. bal_blockNumber r = blockNumber) t"

text \<open>
  Modelled from the spec: \<^verbatim>\<open>getByHolderAndAsset(holderAddress, assetId)\<close> is an equality
  filter on both fields and returns the rows of all blocks for the pair.
\<close>

definition getByHolderAndAsset :: "EthereumAddress \<Rightarrow> AssetId \<Rightarrow> balances \<Rightarrow> BalanceRecord list" where
  "getByHolderAndAsset holder asset t =
     filter (\<lambda>r. bal_holderAddress r = holder \<and> bal_assetId r = asset) t"

text \<open>Modelled from the spec: \<^verbatim>\<open>getAll()\<close> returns every row, \<^verbatim>\<open>deleteAll()\<close> leaves none.\<close>

definition Balance_getAll :: "balances \<Rightarrow> BalanceRecord list" where
  "Balance_getAll t = t"

definition Balance_deleteAll :: "balances \<Rightarrow> balances" where
  "Balance_deleteAll t = []"

text \<open>
  The tables the repository can reach: what a sequence of its two writes makes of the
  empty table.
\<close>

datatype balance_write = AddOrUpdateMany "BalanceRecord list" | DeleteAll

fun apply_write :: "balance_write \<Rightarrow> balances \<Rightarrow> balances" where
  "apply_write (AddOrUpdateMany records) t = addOrUpdateMany records t"
| "apply_write DeleteAll t = Balance_deleteAll t"

definition table_after :: "balance_write list \<Rightarrow> balances" where
  "table_after ws = fold apply_write ws []"

text \<open>The balance a table holds under a key, the first row with the key deciding.\<close>

definition balance_of :: "BalanceRecord list \<Rightarrow> (int \<times> EthereumAddress \<times> AssetId \<rightharpoonup> int)" where
  "balance_of t = map_of (map (\<lambda>r. (key r, bal_balance r)) t)"

subsection \<open>getLatestPerHolder\<close>

text \<open>
  The rows \<^verbatim>\<open>getLatestPerHolder\<close> returns, as its test has them: a balance record with
  the timestamp of its block.
\<close>

record BalanceRecordWithTimestamp = BalanceRecord +
  timestamp :: UnixTime

text \<open>The join of a balance row with the timestamp of a block-number entry.\<close>

definition withTimestamp :: "BalanceRecord \<Rightarrow> UnixTime \<Rightarrow> BalanceRecordWithTimestamp" where
  "withTimestamp b ts =
     \<lparr> bal_blockNumber = bal_blockNumber b, bal_holderAddress = bal_holderAddress b,
       bal_assetId = bal_assetId b, bal_balance = bal_balance b, timestamp = ts \<rparr>"

text \<open>
  Modelled from the spec: the balance rows joined with the block-number entries on the
  block number, a row for every pair of a balance row and an entry of its block.
\<close>

definition with_timestamps ::
  "balances \<Rightarrow> BlockNumberRecord list \<Rightarrow> BalanceRecordWithTimestamp list" where
  "with_timestamps t blocks =
     concat (map (\<lambda>b. map (\<lambda>n. withTimestamp b (bn_timestamp n))
                           (filter (\<lambda>n. bn_blockNumber n = bal_blockNumber b) blocks))
                 t)"

text \<open>
  A joined row is latest when no joined row of the same holder and the same asset has a
  later timestamp.
\<close>

definition is_latest :: "BalanceRecordWithTimestamp list \<Rightarrow> BalanceRecordWithTimestamp \<Rightarrow> bool" where
  "is_latest rows r =
     list_all (\<lambda>r'. bal_holderAddress r' = bal_holderAddress r \<and> bal_assetId r' = bal_assetId r
                    \<longrightarrow> timestamp r' \<le> timestamp r) rows"

definition latest_rows ::
  "balances \<Rightarrow> BlockNumberRecord list \<Rightarrow> BalanceRecordWithTimestamp list" where
  "latest_rows t blocks =
     (let rows = with_timestamps t blocks in filter (is_latest rows) rows)"

text \<open>
  Modelled from the spec: \<^verbatim>\<open>getLatestPerHolder\<close> is not among the sources. From the
  spec are the join with the block-number entries, the recorded timestamp as what makes
  a row latest, the grouping by holder and the absence of a holder that has no such row.
  The scope of the comparison is not the spec's. The spec compares across the whole
  table (\<open>spec_getLatestPerHolder\<close> below); the repository's test
  (\<^verbatim>\<open>BalanceRepository.test.ts\<close>, lines 201 to 250) contradicts that on its own state,
  where it expects for the holder the row of block 123457 for one asset beside the row
  of block 123456 for another asset. Here a row is compared with the joined rows of its
  own holder and asset, under which the rows of the test come out. Where every holder
  and asset has a row at the latest block, the two scopes select the same rows.
\<close>

definition getLatestPerHolder ::
  "balances \<Rightarrow> BlockNumberRecord list \<Rightarrow> (EthereumAddress \<rightharpoonup> BalanceRecordWithTimestamp list)" where
  "getLatestPerHolder t blocks =
     (\<lambda>holder. case filter (\<lambda>r. bal_holderAddress r = holder) (latest_rows t blocks) of
                 [] \<Rightarrow> None
               | r # rs \<Rightarrow> Some (r # rs))"




text \<open>
  For the proofs about \<open>addOrUpdateMany\<close>: the table with the balances of a map written
  over the rows whose key the map has.
\<close>

definition overwrite :: "(int \<times> EthereumAddress \<times> AssetId \<rightharpoonup> int) \<Rightarrow> balances \<Rightarrow> balances" where
  "overwrite m t = map (\<lambda>x. case m (key x) of None \<Rightarrow> x | Some v \<Rightarrow> x\<lparr> bal_balance := v \<rparr>) t"

subsection \<open>The fixtures of the test\<close>

text \<open>
  \<^verbatim>\<open>BalanceRepository.test.ts\<close>: \<^verbatim>\<open>START\<close> is midnight of 2022-05-17 UTC, 1652745600.
\<close>

definition START_BLOCK_NUMBER :: int where
  "START_BLOCK_NUMBER = 123456"

definition MOCK_HOLDER :: EthereumAddress where
  "MOCK_HOLDER = ''0x011B6E24FfB0B5f5fCc564cf4183C5BBBc96D515''"

definition MOCK_ASSET :: AssetId where
  "MOCK_ASSET = AssetId ''dai-dai-stablecoin''"

definition MOCK_BALANCE :: int where
  "MOCK_BALANCE = 1000000000000000000"

definition DATA :: "BalanceRecord list" where
  "DATA =
     [\<lparr> bal_blockNumber = START_BLOCK_NUMBER, bal_holderAddress = MOCK_HOLDER,
        bal_assetId = MOCK_ASSET, bal_balance = MOCK_BALANCE \<rparr>,
      \<lparr> bal_blockNumber = START_BLOCK_NUMBER + 1, bal_holderAddress = MOCK_HOLDER,
        bal_assetId = MOCK_ASSET, bal_balance = MOCK_BALANCE \<rparr>]"

definition START :: UnixTime where
  "START = 1652745600"

definition additionalRecords :: "BalanceRecord list" where
  "additionalRecords =
     [\<lparr> bal_blockNumber = START_BLOCK_NUMBER, bal_holderAddress = MOCK_HOLDER,
        bal_assetId = AssetId ''token-a'', bal_balance = MOCK_BALANCE \<rparr>]"

definition mixedRows :: "BalanceRecord list" where
  "mixedRows =
     [\<lparr> bal_blockNumber = START_BLOCK_NUMBER + 1, bal_holderAddress = MOCK_HOLDER,
        bal_assetId = MOCK_ASSET, bal_balance = MOCK_BALANCE \<rparr>,
      \<lparr> bal_blockNumber = START_BLOCK_NUMBER + 2,
        bal_holderAddress = ''0x011B6E24FfB0B5f5fCc564cf4183C5BBBc96D515'',
        bal_assetId = AssetId ''dai-dai-stablecoin'', bal_balance = MOCK_BALANCE \<rparr>]"

text \<open>
  The state of the test of \<^verbatim>\<open>getLatestPerHolder\<close>: \<^verbatim>\<open>beforeEach\<close> empties the table and
  writes \<^verbatim>\<open>DATA\<close>, the test writes \<^verbatim>\<open>additionalRecords\<close> and adds one block-number
  entry for each record of \<^verbatim>\<open>DATA\<close>, an hour apart.
\<close>

definition test_balances :: balances where
  "test_balances = addOrUpdateMany additionalRecords (addOrUpdateMany DATA (Balance_deleteAll []))"

definition test_blocks :: "BlockNumberRecord list" where
  "test_blocks =
     [\<lparr> bn_timestamp = START + 0 * 3600, bn_blockNumber = START_BLOCK_NUMBER \<rparr>,
      \<lparr> bn_timestamp = START + 1 * 3600, bn_blockNumber = START_BLOCK_NUMBER + 1 \<rparr>]"

text \<open>What the test expects \<^verbatim>\<open>getLatestPerHolder\<close> to return.\<close>

definition holderLatest_expected :: "EthereumAddress \<rightharpoonup> BalanceRecordWithTimestamp list" where
  "holderLatest_expected =
     [MOCK_HOLDER \<mapsto>
        [\<lparr> bal_blockNumber = START_BLOCK_NUMBER + 1, bal_holderAddress = MOCK_HOLDER,
           bal_assetId = MOCK_ASSET, bal_balance = MOCK_BALANCE,
           timestamp = START + 1 * 3600 \<rparr>,
         \<lparr> bal_blockNumber = START_BLOCK_NUMBER, bal_holderAddress = MOCK_HOLDER,
           bal_assetId = AssetId ''token-a'', bal_balance = MOCK_BALANCE,
           timestamp = START \<rparr>]]"

section \<open>Properties of the texts and of Number\<close>

lemma of_char_digit_char: "d < 10 \<Longrightarrow> (of_char (digit_char d) :: nat) = 48 + d"
  by (simp add: digit_char_def)

lemma digit_value_digit_char: "d < 10 \<Longrightarrow> digit_value (digit_char d) = Some d"
  by (simp add: digit_value_def of_char_digit_char)

lemma is_digit_digit_char: "d < 10 \<Longrightarrow> is_digit 10 (digit_char d)"
  by (simp add: is_digit_def digit_value_digit_char)

lemma digits_value_snoc:
  "digits_value radix (cs @ [c]) =
     digits_value radix cs * int radix + (case digit_value c of None \<Rightarrow> 0 | Some d \<Rightarrow> int d)"
  by (simp add: digits_value_def)

lemma digits_value_dec_nat: "digits_value 10 (dec_nat n) = int n"
proof (induction n rule: dec_nat.induct)
  case (1 n)
  show ?case
  proof (cases "n < 10")
    case True
    then show ?thesis
      by (subst dec_nat.simps) (simp add: digits_value_def digit_value_digit_char)
  next
    case False
    then have "digits_value 10 (dec_nat (n div 10)) = int (n div 10)"
      using "1.IH" by simp
    moreover have "int (n div 10) * 10 + int (n mod 10) = int n"
      by (simp add: zdiv_int zmod_int)
    ultimately show ?thesis
      using False
      by (subst dec_nat.simps) (simp add: digits_value_snoc digit_value_digit_char)
  qed
qed

lemma dec_nat_not_Nil: "dec_nat n \<noteq> []"
  by (subst dec_nat.simps) simp

lemma dec_nat_digits: "c \<in> set (dec_nat n) \<Longrightarrow> is_digit 10 c"
proof (induction n rule: dec_nat.induct)
  case (1 n)
  show ?case
  proof (cases "n < 10")
    case True
    with "1.prems" show ?thesis
      by (subst (asm) dec_nat.simps) (simp add: is_digit_digit_char)
  next
    case False
    with "1.prems" have "c \<in> set (dec_nat (n div 10)) \<or> c = digit_char (n mod 10)"
      by (subst (asm) dec_nat.simps) auto
    then show ?thesis
      using False "1.IH" by (auto simp: is_digit_digit_char)
  qed
qed

lemma list_all_dec_nat: "list_all (is_digit 10) (dec_nat n)"
  by (simp add: list_all_iff dec_nat_digits)

text \<open>A decimal digit is no sign, no dot, no white space and no letter.\<close>

lemma is_digit_10_code: "is_digit 10 c \<Longrightarrow> 48 \<le> (of_char c :: nat) \<and> (of_char c :: nat) \<le> 57"
  by (auto simp: is_digit_def digit_value_def Let_def split: if_splits)

lemma digit_not_special:
  assumes "is_digit 10 c"
  shows "c \<noteq> CHR ''-''" "c \<noteq> CHR ''+''" "c \<noteq> CHR ''.''" "c \<noteq> CHR ''I''" "\<not> is_space c"
    "prefix_radix c = None"
  using is_digit_10_code [OF assms]
  by (auto simp: is_space_def prefix_radix_def)

lemma decimal_literal_digits:
  assumes "ds \<noteq> []" "list_all (is_digit 10) ds"
  shows "decimal_literal ds = Number (digits_value 10 ds)"
proof -
  from assms have h: "is_digit 10 (hd ds)" by (cases ds) simp_all
  have "ds \<noteq> ''Infinity''"
  proof
    assume "ds = ''Infinity''"
    with h have "is_digit 10 CHR ''I''" by simp
    then show False using digit_not_special(4) by blast
  qed
  moreover have tw: "takeWhile (is_digit 10) ds = ds" and dw: "dropWhile (is_digit 10) ds = []"
    using assms(2) by (simp_all add: list_all_iff)
  ultimately show ?thesis
    unfolding decimal_literal_def Let_def tw dw
    using assms(1) by (simp add: exponent_part_def scale_def)
qed

lemma round_to_double_0: "round_to_double 0 = 0"
proof -
  have "bit_length 0 = 0" by (subst bit_length.simps) simp
  then show ?thesis by (simp add: round_to_double_def)
qed

lemma negate_Number: "negate (Number x) = Number (- x)"
  by (cases "x = 0") (auto simp: negate_def Number_def Let_def round_to_double_0)

lemma trim_no_space: "\<forall>c \<in> set s. \<not> is_space c \<Longrightarrow> trim s = s"
proof -
  assume a: "\<forall>c \<in> set s. \<not> is_space c"
  then have "dropWhile is_space s = s" by (cases s) simp_all
  moreover from a have "dropWhile is_space (rev s) = rev s" by (cases "rev s") (simp, force)
  ultimately show ?thesis by (simp add: trim_def)
qed

lemma dec_nat_cases:
  obtains c cs where "dec_nat n = c # cs" "is_digit 10 c" "list_all (is_digit 10) cs"
proof -
  obtain c cs where cs: "dec_nat n = c # cs"
    using dec_nat_not_Nil [of n] by (cases "dec_nat n") auto
  with list_all_dec_nat [of n] show ?thesis by (intro that [of c cs]) simp_all
qed

lemma unary_plus_digits:
  assumes "ds \<noteq> []" "list_all (is_digit 10) ds"
  shows "unary_plus ds = Number (digits_value 10 ds)"
    and "unary_plus (CHR ''-'' # ds) = Number (- digits_value 10 ds)"
proof -
  from assms obtain c cs where cs: "ds = c # cs" "is_digit 10 c" "list_all (is_digit 10) cs"
    by (cases ds) auto
  have ns: "\<forall>x \<in> set ds. \<not> is_space x"
    using assms(2) digit_not_special(5) by (auto simp: list_all_iff)
  then have t: "trim ds = ds" by (rule trim_no_space)
  have p: "(if c = CHR ''0'' \<and> cs \<noteq> [] then prefix_radix (hd cs) else None) = None"
  proof (cases "cs = []")
    case False
    with cs(3) have "is_digit 10 (hd cs)" by (cases cs) simp_all
    then show ?thesis by (simp add: digit_not_special(6))
  qed simp
  from cs(2) have c: "c \<noteq> CHR ''-''" "c \<noteq> CHR ''+''"
    by (simp_all add: digit_not_special)
  show "unary_plus ds = Number (digits_value 10 ds)"
    using decimal_literal_digits [OF assms] t p c cs(1) by (simp add: unary_plus_def)
  have "\<not> is_space CHR ''-''" by (simp add: is_space_def)
  with ns have "trim (CHR ''-'' # ds) = CHR ''-'' # ds"
    by (intro trim_no_space) simp
  then show "unary_plus (CHR ''-'' # ds) = Number (- digits_value 10 ds)"
    using decimal_literal_digits [OF assms] by (simp add: unary_plus_def negate_Number)
qed

lemma unary_plus_toString: "unary_plus (UnixTime_toString t) = Number t"
proof (cases "t < 0")
  case True
  then show ?thesis
    using unary_plus_digits(2) [OF dec_nat_not_Nil list_all_dec_nat, of "nat (- t)"]
    by (simp add: UnixTime_toString_def digits_value_dec_nat)
next
  case False
  then show ?thesis
    using unary_plus_digits(1) [OF dec_nat_not_Nil list_all_dec_nat, of "nat t"]
    by (simp add: UnixTime_toString_def digits_value_dec_nat)
qed

lemma parseInt_digits:
  assumes "ds \<noteq> []" "list_all (is_digit 10) ds"
  shows "parseInt (Some ds) = Number (digits_value 10 ds)"
    and "parseInt (Some (CHR ''-'' # ds)) = Number (- digits_value 10 ds)"
proof -
  from assms obtain c cs where cs: "ds = c # cs" "is_digit 10 c" "list_all (is_digit 10) cs"
    by (cases ds) auto
  have d: "dropWhile is_space ds = ds"
    using cs by (simp add: digit_not_special(5))
  have hex: "\<not> (case ds of c # d # _ \<Rightarrow> c = CHR ''0'' \<and> (d = CHR ''x'' \<or> d = CHR ''X'') | _ \<Rightarrow> False)"
  proof (cases cs)
    case (Cons d cs')
    with cs(3) have "is_digit 10 d" by simp
    then have "prefix_radix d = None" by (rule digit_not_special(6))
    then have "d \<noteq> CHR ''x'' \<and> d \<noteq> CHR ''X''" by (auto simp: prefix_radix_def split: if_splits)
    with Cons cs(1) show ?thesis by simp
  qed (simp add: cs(1))
  have tw: "takeWhile (is_digit 10) ds = ds"
    using assms(2) by (simp add: list_all_iff)
  from cs(2) have c: "c \<noteq> CHR ''-''" "c \<noteq> CHR ''+''"
    by (simp_all add: digit_not_special)
  have hd: "hd ds \<noteq> CHR ''-''" "hd ds \<noteq> CHR ''+''"
    using c cs(1) by simp_all
  show "parseInt (Some ds) = Number (digits_value 10 ds)"
    unfolding parseInt_def Let_def option.case d
    using hex hd assms(1) by (simp add: tw)
  have m: "dropWhile is_space (CHR ''-'' # ds) = CHR ''-'' # ds"
    by (simp add: is_space_def)
  show "parseInt (Some (CHR ''-'' # ds)) = Number (- digits_value 10 ds)"
    unfolding parseInt_def Let_def option.case m
    using hex assms(1) by (simp add: tw)
qed

lemma parseInt_toString: "parseInt (Some (UnixTime_toString t)) = Number t"
proof (cases "t < 0")
  case True
  then show ?thesis
    using parseInt_digits(2) [OF dec_nat_not_Nil list_all_dec_nat, of "nat (- t)"]
    by (simp add: UnixTime_toString_def digits_value_dec_nat)
next
  case False
  then show ?thesis
    using parseInt_digits(1) [OF dec_nat_not_Nil list_all_dec_nat, of "nat t"]
    by (simp add: UnixTime_toString_def digits_value_dec_nat)
qed

lemma read_integer_toString: "read_integer (UnixTime_toString t) = Some t"
proof (cases "t < 0")
  case True
  then show ?thesis
    by (simp add: read_integer_def UnixTime_toString_def dec_nat_not_Nil list_all_dec_nat
        digits_value_dec_nat)
next
  case False
  obtain c cs where cs: "dec_nat (nat t) = c # cs" "is_digit 10 c" "list_all (is_digit 10) cs"
    by (rule dec_nat_cases)
  then have "c \<noteq> CHR ''-''" by (simp add: digit_not_special)
  with False cs digits_value_dec_nat [of "nat t"] show ?thesis
    by (simp add: read_integer_def UnixTime_toString_def)
qed

lemma toString_inj: "UnixTime_toString a = UnixTime_toString b \<Longrightarrow> a = b"
proof -
  assume "UnixTime_toString a = UnixTime_toString b"
  then have "read_integer (UnixTime_toString a) = read_integer (UnixTime_toString b)" by simp
  then show "a = b" by (simp add: read_integer_toString)
qed

text \<open>What the unary plus and \<^verbatim>\<open>parseInt\<close> read from some texts.\<close>

lemma unary_plus_examples:
  "unary_plus ''+5'' = Finite 5"
  "unary_plus ''1e3'' = Finite 1000"
  "unary_plus '' 12'' = Finite 12"
  "unary_plus ''0x10'' = Finite 16"
  "unary_plus ''1.5'' = NonInteger"
  "unary_plus '''' = Finite 0"
  "unary_plus ''12px'' = NaN"
  "unary_plus ''9007199254740993'' = Finite 9007199254740992"
  by code_simp+

lemma parseInt_examples:
  "parseInt (Some ''9007199254740993'') = Finite 9007199254740992"
  "parseInt (Some '' -12abc'') = Finite (- 12)"
  "parseInt (Some ''0x1f'') = Finite 31"
  "parseInt (Some '''') = NaN"
  "parseInt None = NaN"
  by code_simp+

lemma bit_length_le: "n < 2 ^ k \<Longrightarrow> bit_length n \<le> k"
proof (induction n arbitrary: k rule: bit_length.induct)
  case (1 n)
  show ?case
  proof (cases "n \<le> 0")
    case True
    then show ?thesis by (subst bit_length.simps) simp
  next
    case False
    with "1.prems" obtain j where k: "k = Suc j"
      by (cases k) auto
    with "1.prems" have "n div 2 < 2 ^ j" by simp
    with False "1.IH" have "bit_length (n div 2) \<le> j" by simp
    with False k show ?thesis by (subst bit_length.simps) simp
  qed
qed

lemma bit_length_lower: "0 < n \<Longrightarrow> 2 ^ bit_length n \<le> 2 * n"
proof (induction n rule: bit_length.induct)
  case (1 n)
  show ?case
  proof (cases "n = 1")
    case True
    have "bit_length 1 = 1"
      by (subst bit_length.simps, simp, subst bit_length.simps, simp)
    with True show ?thesis by simp
  next
    case False
    with "1.prems" have h: "0 < n div 2" by simp
    with "1.prems" "1.IH" have "2 ^ bit_length (n div 2) \<le> 2 * (n div 2)" by simp
    also have "\<dots> \<le> n" by simp
    finally have "2 ^ bit_length (n div 2) \<le> n" .
    with "1.prems" show ?thesis by (subst bit_length.simps) simp
  qed
qed

lemma round_to_double_exact: "m < 2 ^ 53 \<Longrightarrow> round_to_double m = m"
proof -
  assume "m < 2 ^ 53"
  then have "bit_length m - 53 = 0"
    using bit_length_le [of m 53] by simp
  then show ?thesis by (simp add: round_to_double_def)
qed

lemma Number_exact: "\<bar>x\<bar> \<le> 2 ^ 53 \<Longrightarrow> Number x = Finite x"
proof -
  assume a: "\<bar>x\<bar> \<le> 2 ^ 53"
  show ?thesis
  proof (cases "\<bar>x\<bar> = 2 ^ 53")
    case True
    have "Number (2 ^ 53) = Finite (2 ^ 53)" "Number (- (2 ^ 53)) = Finite (- (2 ^ 53))"
      by code_simp+
    moreover from True have "x = 2 ^ 53 \<or> x = - (2 ^ 53)" by linarith
    ultimately show ?thesis by auto
  next
    case False
    with a have lt: "\<bar>x\<bar> < 2 ^ 53" by linarith
    then have "round_to_double \<bar>x\<bar> = \<bar>x\<bar>" by (rule round_to_double_exact)
    moreover have "\<bar>x\<bar> < 2 ^ 1024" using lt
      by (rule less_trans) simp
    ultimately show ?thesis by (auto simp add: Number_def Let_def)
  qed
qed

lemma Number_above_2_53: "Number 9007199254740993 = Finite 9007199254740992"
  by code_simp

lemma bit_length_upper: "n < 2 ^ bit_length n"
proof (induction n rule: bit_length.induct)
  case (1 n)
  show ?case
  proof (cases "n \<le> 0")
    case True
    then have "n < 1" by simp
    with True show ?thesis by (subst bit_length.simps) simp
  next
    case False
    with "1.IH" have "n div 2 < 2 ^ bit_length (n div 2)" by simp
    then have "n < 2 * 2 ^ bit_length (n div 2)" by linarith
    with False show ?thesis by (subst bit_length.simps) simp
  qed
qed

lemma round_to_double_large:
  assumes "2 ^ 53 \<le> m"
  shows "2 ^ 53 \<le> round_to_double m"
proof -
  define k where "k = bit_length m"
  define e where "e = k - 53"
  from assms have pos: "0 < m" by (simp add: less_le_trans [of 0 "2 ^ 53"])
  have "m < 2 ^ k" unfolding k_def by (rule bit_length_upper)
  with assms have "(2::int) ^ 53 < 2 ^ k" by linarith
  then have k53: "53 < k" by (rule power_less_imp_less_exp [rotated]) simp
  then have ke: "k = 53 + e" and e1: "1 \<le> e" by (simp_all add: e_def)
  have "2 ^ k \<le> 2 * m" unfolding k_def using pos by (rule bit_length_lower)
  moreover have "(2::int) ^ k = 2 * 2 ^ (52 + e)"
    by (simp add: ke flip: power_Suc)
  ultimately have "(2::int) ^ (52 + e) \<le> m" by linarith
  then have "(2::int) ^ 52 * 2 ^ e \<le> m" by (simp add: power_add)
  then have "((2::int) ^ 52 * 2 ^ e) div 2 ^ e \<le> m div 2 ^ e"
    by (rule zdiv_mono1) simp
  then have q: "2 ^ 52 \<le> m div 2 ^ e" by simp
  define q' where "q' = (if 2 * (m mod 2 ^ e) > 2 ^ e \<or> (2 * (m mod 2 ^ e) = 2 ^ e \<and> odd (m div 2 ^ e))
                          then m div 2 ^ e + 1 else m div 2 ^ e)"
  have "2 ^ 52 \<le> q'" using q by (simp add: q'_def)
  moreover have "(2::int) \<le> 2 ^ e" using e1
    by (metis power_increasing one_le_numeral power_one_right)
  ultimately have "(2::int) ^ 52 * 2 \<le> q' * 2 ^ e"
    by (intro mult_mono) simp_all
  moreover have "round_to_double m = q' * 2 ^ e"
    by (simp add: round_to_double_def Let_def q'_def e_def k_def)
  ultimately show ?thesis by simp
qed

lemma integer_column_Number:
  "integer_column (Number x) = (if - (2 ^ 31) \<le> x \<and> x < 2 ^ 31 then Some x else None)"
proof (cases "\<bar>x\<bar> \<le> 2 ^ 53")
  case True
  then show ?thesis by (simp add: Number_exact integer_column_def)
next
  case False
  then have "2 ^ 53 \<le> \<bar>x\<bar>" by simp
  then have r: "2 ^ 53 \<le> round_to_double \<bar>x\<bar>" by (rule round_to_double_large)
  have "integer_column (Number x) = None"
    using r by (auto simp: Number_def Let_def integer_column_def)
  moreover from False have "\<not> (- (2 ^ 31) \<le> x \<and> x < 2 ^ 31)" by auto
  ultimately show ?thesis by simp
qed

section \<open>BlockNumberRepository: the row of a record and back\<close>

text \<open>
  C2, as the code has it. \<^verbatim>\<open>toRow\<close> stores the block number as a JavaScript number and
  the timestamp as its decimal text, and \<^verbatim>\<open>toRecord\<close> reads both back through numbers.
  The record comes back as it was exactly when its timestamp and its block number are
  integers that a double holds, and so whenever both have a magnitude of at most
  \<open>2^53\<close>.
\<close>

theorem toRecord_toRow_roundtrip:
  "(BlockNumber_toRecord (BlockNumber_toRow r) = Inr r \<longleftrightarrow>
      Number (bn_timestamp r) = Finite (bn_timestamp r) \<and>
      Number (bn_blockNumber r) = Finite (bn_blockNumber r)) \<and>
   (\<bar>bn_timestamp r\<bar> \<le> 2 ^ 53 \<and> \<bar>bn_blockNumber r\<bar> \<le> 2 ^ 53 \<longrightarrow>
      BlockNumber_toRecord (BlockNumber_toRow r) = Inr r)"
proof -
  have 1: "BlockNumber_toRecord (BlockNumber_toRow r) = Inr r \<longleftrightarrow>
      Number (bn_timestamp r) = Finite (bn_timestamp r) \<and>
      Number (bn_blockNumber r) = Finite (bn_blockNumber r)"
    by (cases "Number (bn_timestamp r)"; cases "Number (bn_blockNumber r)"; cases r)
      (auto simp: BlockNumber_toRecord_def BlockNumber_toRow_def unary_plus_toString
        UnixTime_new_def BigInt_def)
  then show ?thesis by (simp add: Number_exact)
qed

theorem toRecord_toRow_roundtrip_witness:
  "\<bar>bn_timestamp \<lparr> bn_timestamp = 1652745600, bn_blockNumber = 123456 \<rparr>\<bar> \<le> 2 ^ 53 \<and>
   \<bar>bn_blockNumber \<lparr> bn_timestamp = 1652745600, bn_blockNumber = 123456 \<rparr>\<bar> \<le> 2 ^ 53 \<and>
   Number 1652745600 = Finite 1652745600 \<and> Number 123456 = Finite 123456 \<and>
   BlockNumber_toRecord (BlockNumber_toRow \<lparr> bn_timestamp = 1652745600, bn_blockNumber = 123456 \<rparr>)
     = Inr \<lparr> bn_timestamp = 1652745600, bn_blockNumber = 123456 \<rparr>"
  using toRecord_toRow_roundtrip [of "\<lparr> bn_timestamp = 1652745600, bn_blockNumber = 123456 \<rparr>"]
  by (simp add: Number_exact)

text \<open>
  C2 as stated fails above \<open>2^53\<close>: the block number \<open>2^53 + 1\<close> is not a double,
  \<^verbatim>\<open>Number\<close> rounds it to \<open>2^53\<close>, and the record that comes back is another one.
\<close>

theorem toRecord_toRow_counterexample:
  "BlockNumber_toRecord
     (BlockNumber_toRow \<lparr> bn_timestamp = 1652745600, bn_blockNumber = 9007199254740993 \<rparr>)
     = Inr \<lparr> bn_timestamp = 1652745600, bn_blockNumber = 9007199254740992 \<rparr> \<and>
   BlockNumber_toRecord
     (BlockNumber_toRow \<lparr> bn_timestamp = 1652745600, bn_blockNumber = 9007199254740993 \<rparr>)
     \<noteq> Inr \<lparr> bn_timestamp = 1652745600, bn_blockNumber = 9007199254740993 \<rparr>"
  by (simp add: BlockNumber_toRecord_def BlockNumber_toRow_def unary_plus_toString
      UnixTime_new_def BigInt_def Number_above_2_53 Number_exact)

section \<open>BlockNumberRepository.add\<close>

text \<open>
  C6, as the code has it. For a block number that the integer column takes, \<^verbatim>\<open>add\<close>
  appends exactly one row, the row of the record, under a fresh identifier, whatever the
  table holds already (no uniqueness is checked, no row is overwritten), and returns the
  \<^verbatim>\<open>block_number\<close> column of that row, the record's block number as a JavaScript
  number. For any other block number the store rejects the insert: \<^verbatim>\<open>add\<close> fails with
  the data-access error and the table is as it was.
\<close>

theorem add_appends_row_returns_block_number:
  "(- (2 ^ 31) \<le> bn_blockNumber record \<and> bn_blockNumber record < 2 ^ 31 \<longrightarrow>
      add record t =
        (Inr (Some (Finite (bn_blockNumber record))),
         \<lparr> bn_rows = bn_rows t @
             [\<lparr> bnr_id = bn_next_id t, bnr_unix_timestamp = bn_timestamp record,
                bnr_block_number = bn_blockNumber record \<rparr>],
           bn_next_id = Suc (bn_next_id t) \<rparr>) \<and>
      length (bn_rows (snd (add record t))) = Suc (length (bn_rows t)) \<and>
      take (length (bn_rows t)) (bn_rows (snd (add record t))) = bn_rows t) \<and>
   (\<not> (- (2 ^ 31) \<le> bn_blockNumber record \<and> bn_blockNumber record < 2 ^ 31) \<longrightarrow>
      add record t = (Inl DataAccessError, t))"
  by (simp add: add_def insert_returning_block_number_def BlockNumber_toRow_def
      read_integer_toString integer_column_Number)

theorem add_appends_row_returns_block_number_witness:
  "add \<lparr> bn_timestamp = 1652745600, bn_blockNumber = 123456 \<rparr>
       \<lparr> bn_rows = [\<lparr> bnr_id = 1, bnr_unix_timestamp = 1652745600, bnr_block_number = 123456 \<rparr>],
         bn_next_id = 2 \<rparr>
     = (Inr (Some (Finite 123456)),
        \<lparr> bn_rows = [\<lparr> bnr_id = 1, bnr_unix_timestamp = 1652745600, bnr_block_number = 123456 \<rparr>,
                     \<lparr> bnr_id = 2, bnr_unix_timestamp = 1652745600, bnr_block_number = 123456 \<rparr>],
          bn_next_id = 3 \<rparr>) \<and>
   add \<lparr> bn_timestamp = 1652745600, bn_blockNumber = 2147483648 \<rparr> \<lparr> bn_rows = [], bn_next_id = 1 \<rparr>
     = (Inl DataAccessError, \<lparr> bn_rows = [], bn_next_id = 1 \<rparr>)"
  using add_appends_row_returns_block_number
          [of "\<lparr> bn_timestamp = 1652745600, bn_blockNumber = 123456 \<rparr>"
              "\<lparr> bn_rows = [\<lparr> bnr_id = 1, bnr_unix_timestamp = 1652745600, bnr_block_number = 123456 \<rparr>],
                 bn_next_id = 2 \<rparr>"]
        add_appends_row_returns_block_number
          [of "\<lparr> bn_timestamp = 1652745600, bn_blockNumber = 2147483648 \<rparr>"
              "\<lparr> bn_rows = [], bn_next_id = 1 \<rparr>"]
  by simp

text \<open>
  C6 as stated fails: on an empty table whose next identifier is 1, adding block 123456
  gives the new row the identifier 1 and returns 123456.
\<close>

theorem add_returns_row_id_counterexample:
  "map bnr_id (bn_rows (snd (add \<lparr> bn_timestamp = 1652745600, bn_blockNumber = 123456 \<rparr>
                               \<lparr> bn_rows = [], bn_next_id = 1 \<rparr>))) = [1] \<and>
   fst (add \<lparr> bn_timestamp = 1652745600, bn_blockNumber = 123456 \<rparr>
            \<lparr> bn_rows = [], bn_next_id = 1 \<rparr>) = Inr (Some (Finite 123456)) \<and>
   fst (add \<lparr> bn_timestamp = 1652745600, bn_blockNumber = 123456 \<rparr>
            \<lparr> bn_rows = [], bn_next_id = 1 \<rparr>) \<noteq> Inr (Some (Finite 1))"
  by (simp add: add_def insert_returning_block_number_def BlockNumber_toRow_def
      read_integer_toString integer_column_Number)

section \<open>PriceRepository.addMany\<close>

lemma try_map_map:
  "(\<And>x. x \<in> set xs \<Longrightarrow> f (g x) = Inr (h x)) \<Longrightarrow> try_map f (map g xs) = Inr (map h xs)"
  by (induction xs) auto

lemma concat_chunk: "0 < n \<Longrightarrow> concat (chunk n xs) = xs"
proof (induction n xs rule: chunk.induct)
  case (1 n xs)
  show ?case
  proof (cases "xs = []")
    case True
    then show ?thesis by (subst chunk.simps) simp
  next
    case False
    with "1.prems" "1.IH" have "concat (chunk n (drop n xs)) = drop n xs" by simp
    with False "1.prems" show ?thesis by (subst chunk.simps) simp
  qed
qed

lemma chunk_bounds: "b \<in> set (chunk n xs) \<Longrightarrow> b \<noteq> [] \<and> length b \<le> n"
proof (induction n xs rule: chunk.induct)
  case (1 n xs)
  show ?case
  proof (cases "n = 0 \<or> xs = []")
    case True
    with "1.prems" show ?thesis by (subst (asm) chunk.simps) simp
  next
    case False
    with "1.prems" have "b = take n xs \<or> b \<in> set (chunk n (drop n xs))"
      by (subst (asm) chunk.simps) simp
    then show ?thesis
    proof
      assume "b = take n xs"
      with False show ?thesis by simp
    next
      assume "b \<in> set (chunk n (drop n xs))"
      with False "1.IH" show ?thesis by simp
    qed
  qed
qed

lemma insert_batches_cases:
  "(\<exists>t'. insert_batches ins bs t = Inr t') \<or>
   (\<exists>pre b rest t1 e. bs = pre @ b # rest \<and> insert_batches ins pre t = Inr t1 \<and>
       ins b t1 = Inl e \<and> insert_batches ins bs t = Inl e)"
proof (induction bs arbitrary: t)
  case Nil
  then show ?case by simp
next
  case (Cons b bs)
  show ?case
  proof (cases "ins b t")
    case (Inl e)
    then have "b # bs = [] @ b # bs \<and> insert_batches ins [] t = Inr t \<and>
       ins b t = Inl e \<and> insert_batches ins (b # bs) t = Inl e" by simp
    then show ?thesis by blast
  next
    case (Inr t2)
    from Cons.IH [of t2] show ?thesis
    proof
      assume "\<exists>t'. insert_batches ins bs t2 = Inr t'"
      with Inr show ?thesis by simp
    next
      assume "\<exists>pre b' rest t1 e. bs = pre @ b' # rest \<and> insert_batches ins pre t2 = Inr t1 \<and>
       ins b' t1 = Inl e \<and> insert_batches ins bs t2 = Inl e"
      then obtain pre b' rest t1 e where h: "bs = pre @ b' # rest"
        "insert_batches ins pre t2 = Inr t1" "ins b' t1 = Inl e" "insert_batches ins bs t2 = Inl e"
        by blast
      with Inr have "b # bs = (b # pre) @ b' # rest \<and> insert_batches ins (b # pre) t = Inr t1 \<and>
       ins b' t1 = Inl e \<and> insert_batches ins (b # bs) t = Inl e" by simp
      then show ?thesis by blast
    qed
  qed
qed

lemma unwire_toRow: "unwire (Price_toRow p) = Inr (stored p)"
  by (simp add: unwire_def Price_toRow_def stored_def read_integer_toString)

lemma insert_rows_toRow: "insert_rows (map Price_toRow ps) t = Inr (t @ map stored ps)"
proof -
  have "try_map unwire (map Price_toRow ps) = Inr (map stored ps)"
    by (rule try_map_map) (rule unwire_toRow)
  then show ?thesis by (simp add: insert_rows_def)
qed

lemma insert_batches_insert_rows:
  "0 < n \<Longrightarrow> insert_batches insert_rows (chunk n (map Price_toRow ps)) t = Inr (t @ map stored ps)"
proof (induction n ps arbitrary: t rule: chunk.induct)
  case (1 n ps)
  show ?case
  proof (cases "ps = []")
    case True
    then show ?thesis by (subst chunk.simps) simp
  next
    case False
    have "insert_batches insert_rows (chunk n (map Price_toRow (drop n ps))) (t @ map stored (take n ps))
        = Inr ((t @ map stored (take n ps)) @ map stored (drop n ps))"
      using False "1.prems" by (intro "1.IH") simp_all
    moreover have "map stored (take n ps) @ map stored (drop n ps) = map stored ps"
      by (simp flip: map_append)
    ultimately show ?thesis
      using False "1.prems"
      by (subst chunk.simps) (simp add: take_map drop_map insert_rows_toRow)
  qed
qed

lemma addMany_insert_rows:
  "addMany insert_rows prices t = (t @ map stored prices, Inr (length prices))"
  by (simp add: addMany_def batchInsert_def insert_batches_insert_rows)

text \<open>
  C7. \<^verbatim>\<open>addMany\<close> cuts the rows of the records into batches that are never empty and
  never longer than 10000 rows and that together are the rows in their order; a row
  carries the asset, the price and, as the store reads its text, the timestamp of its
  record. Either every batch is inserted and the result is the number of the records, or
  a batch fails: then the batches before it had been inserted, the error of the failing
  batch is the result, no later batch is attempted and the transaction leaves the store
  as it was before the call. With the table as the store no batch fails, the table gains
  one row for each record, in order, and the result is their number.
\<close>

theorem addMany_batches_of_10000:
  "concat (chunk 10000 (map Price_toRow prices)) = map Price_toRow prices \<and>
   (\<forall>b \<in> set (chunk 10000 (map Price_toRow prices)). b \<noteq> [] \<and> length b \<le> 10000) \<and>
   (\<forall>p \<in> set prices. pr_asset_id (Price_toRow p) = pr_assetId p \<and>
        pr_price_usd (Price_toRow p) = pr_priceUsd p \<and>
        read_integer (pr_unix_timestamp (Price_toRow p)) = Some (pr_timestamp p)) \<and>
   ((\<exists>t'. insert_batches ins (chunk 10000 (map Price_toRow prices)) t = Inr t' \<and>
          addMany ins prices t = (t', Inr (length prices))) \<or>
    (\<exists>pre b rest t1 e.
        chunk 10000 (map Price_toRow prices) = pre @ b # rest \<and>
        insert_batches ins pre t = Inr t1 \<and> ins b t1 = Inl e \<and>
        addMany ins prices t = (t, Inl e))) \<and>
   addMany insert_rows prices table = (table @ map stored prices, Inr (length prices)) \<and>
   select_all (table @ map stored prices) = select_all table @ map Price_toRow prices"
proof (intro conjI)
  show "concat (chunk 10000 (map Price_toRow prices)) = map Price_toRow prices"
    by (rule concat_chunk) simp
  show "\<forall>b \<in> set (chunk 10000 (map Price_toRow prices)). b \<noteq> [] \<and> length b \<le> 10000"
    using chunk_bounds by blast
  show "\<forall>p \<in> set prices. pr_asset_id (Price_toRow p) = pr_assetId p \<and>
        pr_price_usd (Price_toRow p) = pr_priceUsd p \<and>
        read_integer (pr_unix_timestamp (Price_toRow p)) = Some (pr_timestamp p)"
    by (simp add: Price_toRow_def read_integer_toString)
  from insert_batches_cases [of ins "chunk 10000 (map Price_toRow prices)" t]
  show "(\<exists>t'. insert_batches ins (chunk 10000 (map Price_toRow prices)) t = Inr t' \<and>
          addMany ins prices t = (t', Inr (length prices))) \<or>
    (\<exists>pre b rest t1 e.
        chunk 10000 (map Price_toRow prices) = pre @ b # rest \<and>
        insert_batches ins pre t = Inr t1 \<and> ins b t1 = Inl e \<and>
        addMany ins prices t = (t, Inl e))"
  proof
    assume "\<exists>t'. insert_batches ins (chunk 10000 (map Price_toRow prices)) t = Inr t'"
    then show ?thesis by (auto simp: addMany_def batchInsert_def)
  next
    assume "\<exists>pre b rest t1 e. chunk 10000 (map Price_toRow prices) = pre @ b # rest \<and>
       insert_batches ins pre t = Inr t1 \<and> ins b t1 = Inl e \<and>
       insert_batches ins (chunk 10000 (map Price_toRow prices)) t = Inl e"
    then obtain pre b rest t1 e where "chunk 10000 (map Price_toRow prices) = pre @ b # rest"
       "insert_batches ins pre t = Inr t1" "ins b t1 = Inl e"
       "insert_batches ins (chunk 10000 (map Price_toRow prices)) t = Inl e" by blast
    then have "chunk 10000 (map Price_toRow prices) = pre @ b # rest \<and>
        insert_batches ins pre t = Inr t1 \<and> ins b t1 = Inl e \<and>
        addMany ins prices t = (t, Inl e)"
      by (simp add: addMany_def batchInsert_def)
    then show ?thesis by blast
  qed
  show "addMany insert_rows prices table = (table @ map stored prices, Inr (length prices))"
    by (rule addMany_insert_rows)
  show "select_all (table @ map stored prices) = select_all table @ map Price_toRow prices"
    by (simp add: select_all_def wire_def stored_def Price_toRow_def)
qed

theorem addMany_batches_of_10000_witness:
  "chunk 10000 (map Price_toRow
       (replicate 10001 \<lparr> pr_assetId = ''dai'', pr_priceUsd = (1::nat), pr_timestamp = 5 \<rparr>))
     = [replicate 10000 (Price_toRow \<lparr> pr_assetId = ''dai'', pr_priceUsd = 1, pr_timestamp = 5 \<rparr>),
        [Price_toRow \<lparr> pr_assetId = ''dai'', pr_priceUsd = 1, pr_timestamp = 5 \<rparr>]] \<and>
   insert_batches capped_insert
       [replicate 10000 (Price_toRow \<lparr> pr_assetId = ''dai'', pr_priceUsd = (1::nat), pr_timestamp = 5 \<rparr>)] []
     = Inr (replicate 10000 (Price_toRow \<lparr> pr_assetId = ''dai'', pr_priceUsd = 1, pr_timestamp = 5 \<rparr>)) \<and>
   capped_insert [Price_toRow \<lparr> pr_assetId = ''dai'', pr_priceUsd = (1::nat), pr_timestamp = 5 \<rparr>]
       (replicate 10000 (Price_toRow \<lparr> pr_assetId = ''dai'', pr_priceUsd = 1, pr_timestamp = 5 \<rparr>))
     = Inl DataAccessError \<and>
   addMany capped_insert
       (replicate 10001 \<lparr> pr_assetId = ''dai'', pr_priceUsd = (1::nat), pr_timestamp = 5 \<rparr>) []
     = ([], Inl DataAccessError) \<and>
   addMany capped_insert
       (replicate 3 \<lparr> pr_assetId = ''dai'', pr_priceUsd = (1::nat), pr_timestamp = 5 \<rparr>) []
     = (replicate 3 (Price_toRow \<lparr> pr_assetId = ''dai'', pr_priceUsd = 1, pr_timestamp = 5 \<rparr>),
        Inr 3) \<and>
   addMany insert_rows
       [\<lparr> pr_assetId = ''dai'', pr_priceUsd = (1::nat), pr_timestamp = 5 \<rparr>,
        \<lparr> pr_assetId = ''eth'', pr_priceUsd = 2, pr_timestamp = 1652745600 \<rparr>] []
     = ([\<lparr> cp_asset_id = ''dai'', cp_price_usd = 1, cp_unix_timestamp = 5 \<rparr>,
         \<lparr> cp_asset_id = ''eth'', cp_price_usd = 2, cp_unix_timestamp = 1652745600 \<rparr>], Inr 2)"
  using addMany_batches_of_10000
    [of "replicate 10001 \<lparr> pr_assetId = ''dai'', pr_priceUsd = (1::nat), pr_timestamp = 5 \<rparr>"
        capped_insert "[]"
        "[]"]
     addMany_batches_of_10000
    [of "[\<lparr> pr_assetId = ''dai'', pr_priceUsd = (1::nat), pr_timestamp = 5 \<rparr>,
          \<lparr> pr_assetId = ''eth'', pr_priceUsd = 2, pr_timestamp = 1652745600 \<rparr>]"
        capped_insert "[]" "[]"]
  by (simp add: addMany_def batchInsert_def chunk.simps capped_insert_def stored_def)

section \<open>PriceRepository.calcDataBoundaries\<close>

lemma Map_new_fold:
  "fold (\<lambda>(k, v) m. m(k \<mapsto> v)) es m0 = m0 ++ map_of (rev es)"
  by (induction es arbitrary: m0) (auto simp: map_add_upd_left)

lemma Map_new_map_of: "Map_new es = map_of (rev es)"
  by (simp add: Map_new_def Map_new_fold)

lemma Map_new_keys:
  "Map_new (map (\<lambda>a. (a, F a)) as) = (\<lambda>k. if k \<in> set as then Some (F k) else None)"
proof -
  have "map_of (map (\<lambda>a. (a, F a)) (rev as)) = (\<lambda>k. if k \<in> set as then Some (F k) else None)"
    by (rule ext) (simp add: map_of_map_restrict restrict_map_def)
  then show ?thesis by (simp add: Map_new_map_of rev_map)
qed

lemma aggregate_min: "ts \<noteq> [] \<Longrightarrow> aggregate min ts = Some (Min (set ts))"
proof (cases ts)
  case (Cons x xs)
  then show ?thesis using Min.set_eq_fold [of x xs] by simp
qed simp

lemma aggregate_max: "ts \<noteq> [] \<Longrightarrow> aggregate max ts = Some (Max (set ts))"
proof (cases ts)
  case (Cons x xs)
  then show ?thesis using Max.set_eq_fold [of x xs] by simp
qed simp

lemma boundary_entry_group:
  assumes "a \<in> cp_asset_id ` set t"
  shows "boundary_entry
           (let ts = map cp_unix_timestamp (filter (\<lambda>r. cp_asset_id r = a) t)
            in \<lparr> mm_asset_id = a,
                 mm_min = map_option UnixTime_toString (aggregate min ts),
                 mm_max = map_option UnixTime_toString (aggregate max ts) \<rparr>)
         = (case UnixTime_new (Number (Min (cp_unix_timestamp ` {r \<in> set t. cp_asset_id r = a}))) of
              Inl e \<Rightarrow> Inl e
            | Inr lo \<Rightarrow>
                (case UnixTime_new (Number (Max (cp_unix_timestamp ` {r \<in> set t. cp_asset_id r = a}))) of
                   Inl e \<Rightarrow> Inl e
                 | Inr hi \<Rightarrow> Inr (a, \<lparr> earliest = lo, latest = hi \<rparr>)))"
proof -
  let ?ts = "map cp_unix_timestamp (filter (\<lambda>r. cp_asset_id r = a) t)"
  from assms have ne: "?ts \<noteq> []" by (auto simp: filter_empty_conv)
  have s: "set ?ts = cp_unix_timestamp ` {r \<in> set t. cp_asset_id r = a}" by auto
  show ?thesis
    using aggregate_min [OF ne] aggregate_max [OF ne]
    by (simp add: boundary_entry_def Let_def parseInt_toString AssetId_def s
        del: set_map set_filter split: sum.splits)
qed

text \<open>
  C8, as the code has it. On a table whose timestamps have a magnitude of at most
  \<open>2^53\<close>, \<^verbatim>\<open>calcDataBoundaries\<close> does not fail; its mapping has an entry for exactly
  the assets of the table, and the entry of an asset holds the minimum and the maximum of
  the timestamps of the asset's rows, the first at most the second.
\<close>

theorem calcDataBoundaries_min_max:
  "(\<forall>r \<in> set t. \<bar>cp_unix_timestamp r\<bar> \<le> 2 ^ 53) \<Longrightarrow>
   \<exists>m. calcDataBoundaries t = Inr m \<and> dom m = cp_asset_id ` set t \<and>
       (\<forall>a \<in> cp_asset_id ` set t. \<exists>b. m a = Some b \<and>
           earliest b = Min (cp_unix_timestamp ` {r \<in> set t. cp_asset_id r = a}) \<and>
           latest b = Max (cp_unix_timestamp ` {r \<in> set t. cp_asset_id r = a}) \<and>
           earliest b \<le> latest b)"
proof -
  assume bound: "\<forall>r \<in> set t. \<bar>cp_unix_timestamp r\<bar> \<le> 2 ^ 53"
  let ?S = "\<lambda>a. cp_unix_timestamp ` {r \<in> set t. cp_asset_id r = a}"
  let ?F = "\<lambda>a. \<lparr> earliest = Min (?S a), latest = Max (?S a) \<rparr>"
  let ?as = "remdups (map cp_asset_id t)"
  have ex: "Number (Min (?S a)) = Finite (Min (?S a)) \<and> Number (Max (?S a)) = Finite (Max (?S a))"
    if "a \<in> cp_asset_id ` set t" for a
  proof -
    from that have ne: "?S a \<noteq> {}" by auto
    have fin: "finite (?S a)" by simp
    from Min_in [OF fin ne] Max_in [OF fin ne] bound
    have "\<bar>Min (?S a)\<bar> \<le> 2 ^ 53" "\<bar>Max (?S a)\<bar> \<le> 2 ^ 53" by auto
    then show ?thesis by (simp add: Number_exact)
  qed
  have "try_map boundary_entry (min_max_group_by_asset_id t) = Inr (map (\<lambda>a. (a, ?F a)) ?as)"
    unfolding min_max_group_by_asset_id_def
    by (rule try_map_map) (simp add: boundary_entry_group ex UnixTime_new_def)
  then have m: "calcDataBoundaries t = Inr (\<lambda>k. if k \<in> set ?as then Some (?F k) else None)"
    by (simp add: calcDataBoundaries_def Map_new_keys)
  have le: "Min (?S a) \<le> Max (?S a)" if "a \<in> cp_asset_id ` set t" for a
  proof -
    from that obtain x where x: "x \<in> ?S a" by auto
    have fin: "finite (?S a)" by simp
    from Min_le [OF fin x] Max_ge [OF fin x] show ?thesis by (rule order_trans)
  qed
  have d: "dom (\<lambda>k. if k \<in> set ?as then Some (?F k) else None) = cp_asset_id ` set t"
    by (auto simp: dom_def)
  show ?thesis
    using m d le by (intro exI [of _ "\<lambda>k. if k \<in> set ?as then Some (?F k) else None"]) auto
qed

theorem calcDataBoundaries_min_max_witness:
  "list_all (\<lambda>r. \<bar>cp_unix_timestamp r\<bar> \<le> 2 ^ 53)
      [\<lparr> cp_asset_id = ''dai'', cp_price_usd = (1::nat), cp_unix_timestamp = 100 \<rparr>,
       \<lparr> cp_asset_id = ''eth'', cp_price_usd = 2, cp_unix_timestamp = 50 \<rparr>,
       \<lparr> cp_asset_id = ''dai'', cp_price_usd = 3, cp_unix_timestamp = 70 \<rparr>] \<and>
   calcDataBoundaries
      [\<lparr> cp_asset_id = ''dai'', cp_price_usd = (1::nat), cp_unix_timestamp = 100 \<rparr>,
       \<lparr> cp_asset_id = ''eth'', cp_price_usd = 2, cp_unix_timestamp = 50 \<rparr>,
       \<lparr> cp_asset_id = ''dai'', cp_price_usd = 3, cp_unix_timestamp = 70 \<rparr>]
     = Inr [''eth'' \<mapsto> \<lparr> earliest = 50, latest = 50 \<rparr>,
            ''dai'' \<mapsto> \<lparr> earliest = 70, latest = 100 \<rparr>]"
proof -
  let ?t = "[\<lparr> cp_asset_id = ''dai'', cp_price_usd = (1::nat), cp_unix_timestamp = 100 \<rparr>,
             \<lparr> cp_asset_id = ''eth'', cp_price_usd = 2, cp_unix_timestamp = 50 \<rparr>,
             \<lparr> cp_asset_id = ''dai'', cp_price_usd = 3, cp_unix_timestamp = 70 \<rparr>]"
  have h: "\<forall>r \<in> set ?t. \<bar>cp_unix_timestamp r\<bar> \<le> 2 ^ 53" by simp
  from calcDataBoundaries_min_max [OF h] obtain m where
    m: "calcDataBoundaries ?t = Inr m" and d: "dom m = cp_asset_id ` set ?t"
    and b: "\<forall>a \<in> cp_asset_id ` set ?t. \<exists>b. m a = Some b \<and>
           earliest b = Min (cp_unix_timestamp ` {r \<in> set ?t. cp_asset_id r = a}) \<and>
           latest b = Max (cp_unix_timestamp ` {r \<in> set ?t. cp_asset_id r = a}) \<and>
           earliest b \<le> latest b"
    by blast
  have e: "calcDataBoundaries ?t = Inr [''eth'' \<mapsto> \<lparr> earliest = 50, latest = 50 \<rparr>,
            ''dai'' \<mapsto> \<lparr> earliest = 70, latest = 100 \<rparr>]"
    by (simp add: calcDataBoundaries_def min_max_group_by_asset_id_def boundary_entry_def
      parseInt_toString UnixTime_new_def AssetId_def Map_new_def Number_exact)
  from h e m show ?thesis by (simp add: list_all_iff)
qed

text \<open>
  C8 as stated fails on a table with a timestamp above \<open>2^53\<close>: \<^verbatim>\<open>parseInt\<close> reads
  the text of the minimum \<open>2^53 + 1\<close> as the double \<open>2^53\<close>, which is not the minimum.
\<close>

theorem calcDataBoundaries_min_max_counterexample:
  "calcDataBoundaries
      [\<lparr> cp_asset_id = ''dai'', cp_price_usd = (1::nat), cp_unix_timestamp = 9007199254740993 \<rparr>]
     = Inr [''dai'' \<mapsto> \<lparr> earliest = 9007199254740992, latest = 9007199254740992 \<rparr>] \<and>
   Min (cp_unix_timestamp `
      {r \<in> set [\<lparr> cp_asset_id = ''dai'', cp_price_usd = (1::nat),
                   cp_unix_timestamp = 9007199254740993 \<rparr>]. cp_asset_id r = ''dai''})
     = 9007199254740993"
proof -
  have "{r \<in> set [\<lparr> cp_asset_id = ''dai'', cp_price_usd = (1::nat),
                   cp_unix_timestamp = 9007199254740993 \<rparr>]. cp_asset_id r = ''dai''}
      = {\<lparr> cp_asset_id = ''dai'', cp_price_usd = (1::nat), cp_unix_timestamp = 9007199254740993 \<rparr>}"
    by auto
  then show ?thesis
    by (simp add: calcDataBoundaries_def min_max_group_by_asset_id_def boundary_entry_def
      parseInt_toString UnixTime_new_def AssetId_def Map_new_def Number_above_2_53)
qed

section \<open>BalanceRepository.addOrUpdateMany\<close>

lemma key_update [simp]: "key (x\<lparr> bal_balance := v \<rparr>) = key x"
  by (simp add: key_def)

lemma keys_upsert:
  "map key (upsert r t) = (if key r \<in> key ` set t then map key t else map key t @ [key r])"
  by (simp add: upsert_def o_def if_distrib [of key] cong: if_cong)

lemma set_keys_upsert: "key ` set (upsert r t) = insert (key r) (key ` set t)"
proof -
  have "set (map key (upsert r t)) = insert (key r) (set (map key t))"
    unfolding keys_upsert by auto
  then show ?thesis by simp
qed

lemma distinct_keys_upsert: "distinct (map key t) \<Longrightarrow> distinct (map key (upsert r t))"
  unfolding keys_upsert by simp

lemma length_upsert: "length t \<le> length (upsert r t)"
  by (simp add: upsert_def)

lemma take_keys_upsert: "take (length t) (map key (upsert r t)) = map key t"
  unfolding keys_upsert by simp

lemma balance_of_overwrite:
  "balance_of (map (\<lambda>x. if key x = k then x\<lparr> bal_balance := v \<rparr> else x) t) =
     (if k \<in> key ` set t then (balance_of t)(k \<mapsto> v) else balance_of t)"
  by (induction t) (auto simp: balance_of_def fun_upd_twist)

lemma balance_of_append: "balance_of (t @ u) = balance_of u ++ balance_of t"
  by (simp add: balance_of_def)

lemma balance_of_upsert: "balance_of (upsert r t) = (balance_of t)(key r \<mapsto> bal_balance r)"
proof (cases "key r \<in> key ` set t")
  case True
  then show ?thesis by (simp add: upsert_def balance_of_overwrite)
next
  case False
  then have "balance_of t (key r) = None"
    by (auto simp: balance_of_def map_of_eq_None_iff image_iff)
  then have "balance_of [r] ++ balance_of t = (balance_of t)(key r \<mapsto> bal_balance r)"
    by (auto simp: balance_of_def map_add_def fun_eq_iff split: option.splits)
  with False show ?thesis by (simp add: upsert_def balance_of_append)
qed

lemma set_keys_addOrUpdateMany:
  "key ` set (addOrUpdateMany records t) = key ` set t \<union> key ` set records"
  unfolding addOrUpdateMany_def
  by (induction records arbitrary: t) (auto simp: set_keys_upsert)

lemma distinct_keys_addOrUpdateMany:
  "distinct (map key t) \<Longrightarrow> distinct (map key (addOrUpdateMany records t))"
  unfolding addOrUpdateMany_def
  by (induction records arbitrary: t) (auto simp: distinct_keys_upsert)

lemma length_addOrUpdateMany: "length t \<le> length (addOrUpdateMany records t)"
  unfolding addOrUpdateMany_def
proof (induction records arbitrary: t)
  case Nil
  then show ?case by simp
next
  case (Cons r records)
  have "length t \<le> length (upsert r t)" by (rule length_upsert)
  also have "\<dots> \<le> length (fold upsert records (upsert r t))" by (rule Cons.IH)
  finally show ?case by simp
qed

lemma take_keys_addOrUpdateMany:
  "take (length t) (map key (addOrUpdateMany records t)) = map key t"
  unfolding addOrUpdateMany_def
proof (induction records arbitrary: t)
  case Nil
  then show ?case by simp
next
  case (Cons r records)
  let ?u = "upsert r t"
  have "take (length t) (map key (fold upsert records ?u))
      = take (length t) (take (length ?u) (map key (fold upsert records ?u)))"
    using length_upsert [of t r] by (simp add: min_def)
  also have "\<dots> = take (length t) (map key ?u)" by (simp only: Cons.IH)
  also have "\<dots> = map key t" by (rule take_keys_upsert)
  finally show ?case by simp
qed

lemma balance_of_addOrUpdateMany:
  "balance_of (addOrUpdateMany records t) = balance_of t ++ balance_of (rev records)"
  unfolding addOrUpdateMany_def
proof (induction records arbitrary: t)
  case Nil
  then show ?case by (simp add: balance_of_def)
next
  case (Cons r records)
  have "balance_of (rev (r # records)) = balance_of [r] ++ balance_of (rev records)"
    by (simp add: balance_of_append)
  moreover have "(balance_of t)(key r \<mapsto> bal_balance r) = balance_of t ++ balance_of [r]"
    by (simp add: balance_of_def)
  ultimately show ?case
    by (simp add: Cons.IH balance_of_upsert del: rev.simps)
qed

lemma distinct_keys_table_after_aux:
  "distinct (map key t) \<Longrightarrow> distinct (map key (fold apply_write ws t))"
proof (induction ws arbitrary: t)
  case Nil
  then show ?case by simp
next
  case (Cons w ws)
  have "distinct (map key (apply_write w t))"
    using Cons.prems by (cases w) (simp_all add: distinct_keys_addOrUpdateMany Balance_deleteAll_def)
  then show ?case using Cons.IH by simp
qed

lemma distinct_keys_table_after: "distinct (map key (table_after ws))"
  unfolding table_after_def by (rule distinct_keys_table_after_aux) simp

text \<open>
  C4. Whatever sequence of writes made the table, it holds at most one row for a key,
  and so does the table after \<^verbatim>\<open>addOrUpdateMany\<close>. The rows that were there keep their
  places and their keys; the balance under a key is the one of the last record of the
  batch with that key, or the old one when the batch has none; the keys afterwards are
  the old keys and the keys of the batch, and there are as many rows as such keys.
\<close>

theorem addOrUpdateMany_one_row_per_key:
  "distinct (map key (table_after ws)) \<and>
   distinct (map key (addOrUpdateMany records (table_after ws))) \<and>
   take (length (table_after ws)) (map key (addOrUpdateMany records (table_after ws)))
     = map key (table_after ws) \<and>
   balance_of (addOrUpdateMany records (table_after ws))
     = balance_of (table_after ws) ++ balance_of (rev records) \<and>
   key ` set (addOrUpdateMany records (table_after ws))
     = key ` set (table_after ws) \<union> key ` set records \<and>
   length (addOrUpdateMany records (table_after ws))
     = card (key ` set (table_after ws) \<union> key ` set records)"
proof -
  let ?t = "table_after ws"
  have d: "distinct (map key ?t)" by (rule distinct_keys_table_after)
  then have d': "distinct (map key (addOrUpdateMany records ?t))"
    by (rule distinct_keys_addOrUpdateMany)
  have "length (addOrUpdateMany records ?t) = card (set (map key (addOrUpdateMany records ?t)))"
    using distinct_card [OF d'] by simp
  then have "length (addOrUpdateMany records ?t) = card (key ` set ?t \<union> key ` set records)"
    by (simp add: set_keys_addOrUpdateMany)
  with d d' show ?thesis
    by (simp add: take_keys_addOrUpdateMany balance_of_addOrUpdateMany set_keys_addOrUpdateMany)
qed

theorem addOrUpdateMany_one_row_per_key_witness:
  "table_after [DeleteAll, AddOrUpdateMany DATA] = DATA \<and>
   addOrUpdateMany mixedRows (table_after [DeleteAll, AddOrUpdateMany DATA]) = DATA ! 0 # mixedRows \<and>
   length (addOrUpdateMany mixedRows (table_after [DeleteAll, AddOrUpdateMany DATA])) = 3 \<and>
   card (key ` set (table_after [DeleteAll, AddOrUpdateMany DATA]) \<union> key ` set mixedRows) = 3"
proof -
  have t: "table_after [DeleteAll, AddOrUpdateMany DATA] = DATA"
    by (simp add: table_after_def addOrUpdateMany_def Balance_deleteAll_def DATA_def upsert_def
        key_def START_BLOCK_NUMBER_def)
  have m: "addOrUpdateMany mixedRows DATA = DATA ! 0 # mixedRows"
    by (simp add: addOrUpdateMany_def DATA_def mixedRows_def upsert_def key_def
        START_BLOCK_NUMBER_def MOCK_ASSET_def AssetId_def MOCK_HOLDER_def)
  have l: "length (DATA ! 0 # mixedRows) = 3"
    by (simp add: mixedRows_def)
  from addOrUpdateMany_one_row_per_key [of "[DeleteAll, AddOrUpdateMany DATA]" mixedRows] t m l
  show ?thesis by simp
qed

lemma upsert_overwrite:
  "key r \<in> key ` set t \<Longrightarrow> upsert r t = overwrite [key r \<mapsto> bal_balance r] t"
  by (auto simp: upsert_def overwrite_def)

lemma overwrite_overwrite: "overwrite m2 (overwrite m1 t) = overwrite (m1 ++ m2) t"
  by (auto simp: overwrite_def map_add_def split: option.splits)

lemma keys_overwrite: "map key (overwrite m t) = map key t"
  by (auto simp: overwrite_def split: option.splits)

lemma addOrUpdateMany_overwrite:
  "key ` set records \<subseteq> key ` set t \<Longrightarrow>
   addOrUpdateMany records t = overwrite (balance_of (rev records)) t"
  unfolding addOrUpdateMany_def
proof (induction records arbitrary: t)
  case Nil
  then show ?case by (simp add: overwrite_def balance_of_def)
next
  case (Cons r records)
  from Cons.prems have r: "key r \<in> key ` set t" by simp
  have "key ` set records \<subseteq> key ` set (upsert r t)"
    using Cons.prems by (auto simp: set_keys_upsert)
  then have "fold upsert records (upsert r t) = overwrite (balance_of (rev records)) (upsert r t)"
    by (rule Cons.IH)
  also have "\<dots> = overwrite ([key r \<mapsto> bal_balance r] ++ balance_of (rev records)) t"
    by (simp add: upsert_overwrite [OF r] overwrite_overwrite)
  also have "[key r \<mapsto> bal_balance r] ++ balance_of (rev records) = balance_of (rev (r # records))"
    by (simp add: balance_of_append balance_of_def)
  finally show ?case by simp
qed

lemma rows_of_upsert:
  "x \<in> set (upsert r t) \<Longrightarrow> (key x = key r \<and> bal_balance x = bal_balance r) \<or> (key x \<noteq> key r \<and> x \<in> set t)"
  by (auto simp: upsert_def image_iff split: if_splits)

lemma rows_of_addOrUpdateMany:
  "x \<in> set (addOrUpdateMany records t) \<Longrightarrow>
   (key x \<in> key ` set records \<and> balance_of (rev records) (key x) = Some (bal_balance x)) \<or>
   (key x \<notin> key ` set records \<and> x \<in> set t)"
  unfolding addOrUpdateMany_def
proof (induction records arbitrary: t)
  case Nil
  then show ?case by simp
next
  case (Cons r records)
  from Cons.prems have "x \<in> set (fold upsert records (upsert r t))" by simp
  from Cons.IH [OF this] show ?case
  proof
    assume a: "key x \<in> key ` set records \<and> balance_of (rev records) (key x) = Some (bal_balance x)"
    then have "balance_of (rev (r # records)) (key x) = Some (bal_balance x)"
      by (simp add: balance_of_append map_add_def)
    with a show ?thesis by simp
  next
    assume a: "key x \<notin> key ` set records \<and> x \<in> set (upsert r t)"
    then have n: "balance_of (rev records) (key x) = None"
      by (auto simp: balance_of_def map_of_eq_None_iff image_iff)
    from a have "x \<in> set (upsert r t)" by simp
    then consider (same) "key x = key r" "bal_balance x = bal_balance r"
      | (other) "key x \<noteq> key r" "x \<in> set t"
      using rows_of_upsert by blast
    then show ?thesis
    proof cases
      case same
      with n have "balance_of (rev (r # records)) (key x) = Some (bal_balance x)"
        by (simp add: balance_of_append map_add_def balance_of_def)
      with same show ?thesis by simp
    next
      case other
      with a show ?thesis by simp
    qed
  qed
qed

lemma overwrite_fixed:
  "(\<And>x v. x \<in> set t \<Longrightarrow> m (key x) = Some v \<Longrightarrow> bal_balance x = v) \<Longrightarrow> overwrite m t = t"
  unfolding overwrite_def
  by (rule map_idI) (auto split: option.splits)

text \<open>
  C3. Writing the same batch a second time changes nothing: the table after the second
  call is the table after the first, row for row.
\<close>

theorem addOrUpdateMany_idempotent:
  "addOrUpdateMany records (addOrUpdateMany records t) = addOrUpdateMany records t"
proof -
  let ?u = "addOrUpdateMany records t"
  have "key ` set records \<subseteq> key ` set ?u"
    by (simp add: set_keys_addOrUpdateMany)
  then have "addOrUpdateMany records ?u = overwrite (balance_of (rev records)) ?u"
    by (rule addOrUpdateMany_overwrite)
  also have "\<dots> = ?u"
  proof (rule overwrite_fixed)
    fix x v
    assume "x \<in> set ?u" and m: "balance_of (rev records) (key x) = Some v"
    from rows_of_addOrUpdateMany [OF this(1)] m show "bal_balance x = v"
      by (auto simp: balance_of_def map_of_eq_None_iff image_iff dest!: map_of_SomeD)
  qed
  finally show ?thesis .
qed

theorem addOrUpdateMany_idempotent_witness:
  "addOrUpdateMany DATA [] = DATA \<and> addOrUpdateMany DATA (addOrUpdateMany DATA []) = DATA"
proof -
  have "addOrUpdateMany DATA [] = DATA"
    by (simp add: addOrUpdateMany_def DATA_def upsert_def key_def START_BLOCK_NUMBER_def)
  with addOrUpdateMany_idempotent [of DATA "[]"] show ?thesis by simp
qed

text \<open>
  C5. With no record \<^verbatim>\<open>addOrUpdateMany\<close> returns the table as it was, the same rows
  and as many of them.
\<close>

theorem addOrUpdateMany_empty: "addOrUpdateMany [] t = t \<and> length (addOrUpdateMany [] t) = length t"
  by (simp add: addOrUpdateMany_def)

section \<open>Lookups that match no row\<close>

text \<open>
  C9. A lookup whose key matches no row returns the empty sequence and no error:
  \<^verbatim>\<open>getByBlock\<close> and \<^verbatim>\<open>getByHolderAndAsset\<close> of the balance table, \<^verbatim>\<open>getByTimestamp\<close>
  and \<^verbatim>\<open>getByToken\<close> of the price table.
\<close>

theorem lookups_of_unknown_keys_are_empty:
  "((\<forall>r \<in> set bt. bal_blockNumber r \<noteq> n) \<longrightarrow> getByBlock n bt = []) \<and>
   ((\<forall>r \<in> set bt. bal_holderAddress r \<noteq> h \<or> bal_assetId r \<noteq> a) \<longrightarrow>
      getByHolderAndAsset h a bt = []) \<and>
   ((\<forall>r \<in> set pt. cp_unix_timestamp r \<noteq> ts) \<longrightarrow> getByTimestamp ts pt = Inr []) \<and>
   ((\<forall>r \<in> set pt. cp_asset_id r \<noteq> a') \<longrightarrow> getByToken a' pt = Inr [])"
proof (intro conjI impI)
  assume "\<forall>r \<in> set bt. bal_blockNumber r \<noteq> n"
  then show "getByBlock n bt = []" by (simp add: getByBlock_def filter_empty_conv)
next
  assume "\<forall>r \<in> set bt. bal_holderAddress r \<noteq> h \<or> bal_assetId r \<noteq> a"
  then show "getByHolderAndAsset h a bt = []"
    by (simp add: getByHolderAndAsset_def filter_empty_conv)
next
  assume "\<forall>r \<in> set pt. cp_unix_timestamp r \<noteq> ts"
  then have "where_unix_timestamp (UnixTime_toString ts) pt = []"
    by (auto simp: where_unix_timestamp_def select_all_def wire_def filter_empty_conv
        dest: toString_inj)
  then show "getByTimestamp ts pt = Inr []" by (simp add: getByTimestamp_def)
next
  assume "\<forall>r \<in> set pt. cp_asset_id r \<noteq> a'"
  then have "where_asset_id a' pt = []"
    by (auto simp: where_asset_id_def select_all_def wire_def filter_empty_conv)
  then show "getByToken a' pt = Inr []" by (simp add: getByToken_def)
qed

theorem lookups_of_unknown_keys_are_empty_witness:
  "list_all (\<lambda>r. bal_blockNumber r \<noteq> START_BLOCK_NUMBER + 1000) DATA \<and>
   getByBlock (START_BLOCK_NUMBER + 1000) DATA = [] \<and>
   getByHolderAndAsset ''0xcEe284F754E854890e311e3280b767F80797180d'' MOCK_ASSET DATA = [] \<and>
   getByHolderAndAsset MOCK_HOLDER (AssetId ''nonexistent-token'') DATA = [] \<and>
   getByTimestamp 60
      [\<lparr> cp_asset_id = ''dai'', cp_price_usd = (1::nat), cp_unix_timestamp = 100 \<rparr>,
       \<lparr> cp_asset_id = ''eth'', cp_price_usd = 2, cp_unix_timestamp = 50 \<rparr>] = Inr [] \<and>
   getByToken (AssetId ''nonexistent-token'')
      [\<lparr> cp_asset_id = ''dai'', cp_price_usd = (1::nat), cp_unix_timestamp = 100 \<rparr>,
       \<lparr> cp_asset_id = ''eth'', cp_price_usd = 2, cp_unix_timestamp = 50 \<rparr>] = Inr []"
proof -
  let ?pt = "[\<lparr> cp_asset_id = ''dai'', cp_price_usd = (1::nat), cp_unix_timestamp = 100 \<rparr>,
              \<lparr> cp_asset_id = ''eth'', cp_price_usd = 2, cp_unix_timestamp = 50 \<rparr>]"
  have b: "\<forall>r \<in> set DATA. bal_blockNumber r \<noteq> START_BLOCK_NUMBER + 1000"
    by (simp add: DATA_def)
  have h: "\<forall>r \<in> set DATA. bal_holderAddress r \<noteq> ''0xcEe284F754E854890e311e3280b767F80797180d''
             \<or> bal_assetId r \<noteq> MOCK_ASSET"
    by (simp add: DATA_def MOCK_HOLDER_def)
  have a: "\<forall>r \<in> set DATA. bal_holderAddress r \<noteq> MOCK_HOLDER
             \<or> bal_assetId r \<noteq> AssetId ''nonexistent-token''"
    by (simp add: DATA_def MOCK_ASSET_def AssetId_def)
  have ts: "\<forall>r \<in> set ?pt. cp_unix_timestamp r \<noteq> 60" by simp
  have tk: "\<forall>r \<in> set ?pt. cp_asset_id r \<noteq> AssetId ''nonexistent-token''"
    by (simp add: AssetId_def)
  from b have "list_all (\<lambda>r. bal_blockNumber r \<noteq> START_BLOCK_NUMBER + 1000) DATA"
    by (simp add: list_all_iff)
  then show ?thesis
    using lookups_of_unknown_keys_are_empty
            [of DATA "START_BLOCK_NUMBER + 1000" "''0xcEe284F754E854890e311e3280b767F80797180d''"
                MOCK_ASSET ?pt 60 "AssetId ''nonexistent-token''"]
          lookups_of_unknown_keys_are_empty
            [of DATA "START_BLOCK_NUMBER + 1000" MOCK_HOLDER "AssetId ''nonexistent-token''"
                ?pt 60 "AssetId ''nonexistent-token''"]
          b h a ts tk
    by blast
qed

section \<open>BalanceRepository.getLatestPerHolder\<close>

text \<open>The model on the state of the repository's test gives what the test expects.\<close>

lemma test_balances_eq: "test_balances = DATA @ additionalRecords"
  by (simp add: test_balances_def addOrUpdateMany_def Balance_deleteAll_def DATA_def
      additionalRecords_def upsert_def key_def START_BLOCK_NUMBER_def MOCK_ASSET_def AssetId_def)

lemma with_timestamps_test:
  "with_timestamps test_balances test_blocks =
     [withTimestamp (DATA ! 0) START, withTimestamp (DATA ! 1) (START + 3600),
      withTimestamp (additionalRecords ! 0) START]"
  by (simp add: test_balances_eq with_timestamps_def test_blocks_def DATA_def additionalRecords_def
      START_BLOCK_NUMBER_def)

lemma latest_rows_test:
  "latest_rows test_balances test_blocks =
     [withTimestamp (DATA ! 1) (START + 3600), withTimestamp (additionalRecords ! 0) START]"
  by (simp add: latest_rows_def with_timestamps_test is_latest_def withTimestamp_def DATA_def
      additionalRecords_def MOCK_ASSET_def AssetId_def START_def)

lemma getLatestPerHolder_test: "getLatestPerHolder test_balances test_blocks = holderLatest_expected"
  by (rule ext)
    (simp add: getLatestPerHolder_def latest_rows_test holderLatest_expected_def withTimestamp_def
      DATA_def additionalRecords_def)


lemma mem_with_timestamps:
  "r \<in> set (with_timestamps t blocks) \<longleftrightarrow>
     (\<exists>b \<in> set t. \<exists>n \<in> set blocks.
         bn_blockNumber n = bal_blockNumber b \<and> r = withTimestamp b (bn_timestamp n))"
  by (auto simp: with_timestamps_def)

lemma withTimestamp_fields [simp]:
  "bal_blockNumber (withTimestamp b ts) = bal_blockNumber b"
  "bal_holderAddress (withTimestamp b ts) = bal_holderAddress b"
  "bal_assetId (withTimestamp b ts) = bal_assetId b"
  "bal_balance (withTimestamp b ts) = bal_balance b"
  "timestamp (withTimestamp b ts) = ts"
  by (simp_all add: withTimestamp_def)

lemma getLatestPerHolder_Some:
  "getLatestPerHolder t blocks holder = Some rs \<longleftrightarrow>
     rs \<noteq> [] \<and> rs = filter (\<lambda>r. bal_holderAddress r = holder) (latest_rows t blocks)"
  by (auto simp: getLatestPerHolder_def split: list.splits)










text \<open>
  C10. Every row that \<^verbatim>\<open>getLatestPerHolder\<close> returns is a balance row of the table with,
  as its timestamp, the timestamp of a block-number entry recorded for the row's block
  number.
\<close>

theorem getLatestPerHolder_rows_carry_timestamp:
  "getLatestPerHolder t blocks holder = Some rs \<Longrightarrow> r \<in> set rs \<Longrightarrow>
   \<exists>b \<in> set t. \<exists>n \<in> set blocks.
      bn_blockNumber n = bal_blockNumber r \<and> timestamp r = bn_timestamp n \<and>
      r = withTimestamp b (bn_timestamp n)"
proof -
  assume "getLatestPerHolder t blocks holder = Some rs" and "r \<in> set rs"
  then have "r \<in> set (latest_rows t blocks)"
    by (auto simp: getLatestPerHolder_Some)
  then have "r \<in> set (with_timestamps t blocks)"
    by (simp add: latest_rows_def Let_def)
  then obtain b n where "b \<in> set t" "n \<in> set blocks" "bn_blockNumber n = bal_blockNumber b"
    "r = withTimestamp b (bn_timestamp n)"
    unfolding mem_with_timestamps by blast
  then show ?thesis by auto
qed

theorem getLatestPerHolder_rows_carry_timestamp_witness:
  "getLatestPerHolder test_balances test_blocks MOCK_HOLDER =
     Some [\<lparr> bal_blockNumber = 123457, bal_holderAddress = MOCK_HOLDER,
             bal_assetId = ''dai-dai-stablecoin'', bal_balance = 1000000000000000000,
             timestamp = 1652749200 \<rparr>,
           \<lparr> bal_blockNumber = 123456, bal_holderAddress = MOCK_HOLDER,
             bal_assetId = ''token-a'', bal_balance = 1000000000000000000,
             timestamp = 1652745600 \<rparr>] \<and>
   \<lparr> bn_timestamp = 1652745600, bn_blockNumber = 123456 \<rparr> \<in> set test_blocks \<and>
   \<lparr> bal_blockNumber = 123456, bal_holderAddress = MOCK_HOLDER,
     bal_assetId = ''token-a'', bal_balance = 1000000000000000000 \<rparr> \<in> set test_balances"
proof -
  let ?r1 = "\<lparr> bal_blockNumber = 123457, bal_holderAddress = MOCK_HOLDER,
               bal_assetId = ''dai-dai-stablecoin'', bal_balance = 1000000000000000000,
               timestamp = 1652749200 \<rparr>"
  let ?r2 = "\<lparr> bal_blockNumber = 123456, bal_holderAddress = MOCK_HOLDER,
               bal_assetId = ''token-a'', bal_balance = 1000000000000000000,
               timestamp = 1652745600 \<rparr>"
  have s: "getLatestPerHolder test_balances test_blocks MOCK_HOLDER = Some [?r1, ?r2]"
    by (simp add: getLatestPerHolder_test holderLatest_expected_def START_BLOCK_NUMBER_def
        MOCK_ASSET_def AssetId_def MOCK_BALANCE_def START_def)
  have "?r2 \<in> set [?r1, ?r2]" by simp
  from getLatestPerHolder_rows_carry_timestamp [OF s this]
  obtain b n where "b \<in> set test_balances" "n \<in> set test_blocks"
    "bn_blockNumber n = bal_blockNumber ?r2" "timestamp ?r2 = bn_timestamp n"
    "?r2 = withTimestamp b (bn_timestamp n)"
    by blast
  then have "n = \<lparr> bn_timestamp = 1652745600, bn_blockNumber = 123456 \<rparr>"
    and "b = \<lparr> bal_blockNumber = 123456, bal_holderAddress = MOCK_HOLDER,
               bal_assetId = ''token-a'', bal_balance = 1000000000000000000 \<rparr>"
    by (simp_all add: withTimestamp_def)
  with \<open>b \<in> set test_balances\<close> \<open>n \<in> set test_blocks\<close> s show ?thesis by simp
qed

end
